theory Spec2Isabelle
  imports Complex_Main "HOL-Library.Word"
begin

section \<open>Errors\<close>

text \<open>
  The exceptions of the Python program, as values.  \<open>MergeError\<close> is the name the
  specification gives to the failure of the library call \<^verbatim>\<open>merge(datasets)\<close> on an
  empty list; \<open>ValueError\<close> is what \<^verbatim>\<open>range(0, n, 0)\<close> raises.
\<close>

datatype error =
    KeyError
  | RequestException
  | HTTPError nat
  | UnidentifiedImageError
  | ZeroDivisionError
  | RasterioIOError
  | MergeError
  | ValueError

section \<open>Rasters on the common pixel grid\<close>

text \<open>
  A sample is one 8-bit channel value, a pixel three of them (R, G, B).  A raster
  dataset, as \<^verbatim>\<open>rasterio.open(path)\<close> hands it to \<^verbatim>\<open>merge\<close>, is a pixel buffer of
  \<open>r_height\<close> rows of \<open>r_width\<close> pixels together with its georeference.  The
  specification composes datasets on one output grid of uniform resolution, so the
  georeference is held as the position of the upper-left corner on that grid, in
  pixels: \<open>r_left\<close> (columns, growing eastwards) and \<open>r_top\<close> (rows, growing
  southwards).
\<close>

type_synonym sample = "8 word"
type_synonym pixel = "sample \<times> sample \<times> sample"

record raster =
  r_left :: int
  r_top :: int
  r_width :: nat
  r_height :: nat
  r_data :: "pixel list list"

definition r_right :: "raster \<Rightarrow> int" where
  "r_right d = r_left d + int (r_width d)"

definition r_bottom :: "raster \<Rightarrow> int" where
  "r_bottom d = r_top d + int (r_height d)"

definition covers :: "raster \<Rightarrow> int \<Rightarrow> int \<Rightarrow> bool" where
  "covers d x y \<longleftrightarrow> r_left d \<le> x \<and> x < r_right d \<and> r_top d \<le> y \<and> y < r_bottom d"

definition read_px :: "raster \<Rightarrow> int \<Rightarrow> int \<Rightarrow> pixel" where
  "read_px d x y = r_data d ! nat (y - r_top d) ! nat (x - r_left d)"

definition render :: "int \<Rightarrow> int \<Rightarrow> nat \<Rightarrow> nat \<Rightarrow> (int \<Rightarrow> int \<Rightarrow> pixel) \<Rightarrow> raster" where
  "render L T W H f =
     \<lparr> r_left = L, r_top = T, r_width = W, r_height = H,
       r_data = map (\<lambda>j. map (\<lambda>i. f (L + int i) (T + int j)) [0..<W]) [0..<H] \<rparr>"

section \<open>The library's merge\<close>

text \<open>
  Modelled from the spec: \<^verbatim>\<open>rasterio.merge.merge\<close> is a library function, absent from
  the repository's sources.  Section 4.3 of the specification describes it: the
  datasets are composited onto an output grid whose extent is the union of their
  bounds; the grid starts empty (every sample is nodata); the datasets are copied onto
  it in list order, and a sample is copied only where the grid is still empty, so a
  later dataset never overwrites a sample that is already filled.  The files of this
  program are written without a nodata tag, for which the empty value is 0.  An empty
  list of datasets is an error.
\<close>

definition nodata :: sample where
  "nodata = 0"

definition nodata_px :: pixel where
  "nodata_px = (nodata, nodata, nodata)"

definition copy_sample :: "sample \<Rightarrow> sample \<Rightarrow> sample" where
  "copy_sample merged new = (if merged = nodata then new else merged)"

fun copy_first :: "pixel \<Rightarrow> pixel \<Rightarrow> pixel" where
  "copy_first (r, g, b) (r', g', b') = (copy_sample r r', copy_sample g g', copy_sample b b')"

definition paste :: "raster \<Rightarrow> raster \<Rightarrow> raster" where
  "paste dest src =
     render (r_left dest) (r_top dest) (r_width dest) (r_height dest)
       (\<lambda>x y. if covers src x y then copy_first (read_px dest x y) (read_px src x y)
              else read_px dest x y)"

definition merge :: "raster list \<Rightarrow> error + raster" where
  "merge datasets =
     (if datasets = [] then Inl MergeError
      else
        let dst_w = Min (set (map r_left datasets));
            dst_n = Min (set (map r_top datasets));
            dst_e = Max (set (map r_right datasets));
            dst_s = Max (set (map r_bottom datasets));
            dest = render dst_w dst_n (nat (dst_e - dst_w)) (nat (dst_s - dst_n))
                     (\<lambda>x y. nodata_px)
        in Inr (foldl paste dest datasets))"

section \<open>Merging in batches\<close>

text \<open>
  \<^verbatim>\<open>merge_in_batches(paths, batch_size)\<close> of \<^verbatim>\<open>planet_downloader.py\<close>.  The scratch
  storage is a map from paths to rasters; opening a path that holds no readable raster
  raises, which the loop catches and skips.  The directory \<^verbatim>\<open>tmpmerge\<close> is fresh, and
  its file \<^verbatim>\<open>batch_{i}.tif\<close> is keyed by \<open>i\<close>.  A batch mosaic is written with the
  dimensions, data type and transform the merge returned and with no nodata tag, so
  opening it again gives the raster that was written.  \<^verbatim>\<open>range(0, len(paths), 0)\<close>
  raises \<open>ValueError\<close>.
\<close>

type_synonym path = string

fun open_batch :: "(path \<rightharpoonup> raster) \<Rightarrow> path list \<Rightarrow> raster list" where
  "open_batch fs [] = []"
| "open_batch fs (p # ps) =
     (case fs p of None \<Rightarrow> open_batch fs ps | Some ds \<Rightarrow> ds # open_batch fs ps)"

function batch_loop ::
  "(path \<rightharpoonup> raster) \<Rightarrow> path list \<Rightarrow> nat \<Rightarrow> nat \<Rightarrow> (nat \<rightharpoonup> raster) \<times> nat list \<Rightarrow>
     error + ((nat \<rightharpoonup> raster) \<times> nat list)" where
  "batch_loop fs paths batch_size i (tmpmerge, temp_outputs) =
     (if batch_size = 0 \<or> length paths \<le> i then Inr (tmpmerge, temp_outputs)
      else
        let batch = take batch_size (drop i paths);
            datasets = open_batch fs batch
        in if datasets = [] then
             batch_loop fs paths batch_size (i + batch_size) (tmpmerge, temp_outputs)
           else
             (case merge datasets of
                Inl e \<Rightarrow> Inl e
              | Inr mosaic \<Rightarrow>
                  batch_loop fs paths batch_size (i + batch_size)
                    (tmpmerge(i \<mapsto> mosaic), temp_outputs @ [i])))"
  by pat_completeness auto
termination
  by (relation "measure (\<lambda>(fs, paths, batch_size, i, st). length paths - i)") auto

fun open_outputs :: "(nat \<rightharpoonup> raster) \<Rightarrow> nat list \<Rightarrow> error + raster list" where
  "open_outputs tmpmerge [] = Inr []"
| "open_outputs tmpmerge (p # ps) =
     (case tmpmerge p of
        None \<Rightarrow> Inl RasterioIOError
      | Some ds \<Rightarrow>
          (case open_outputs tmpmerge ps of Inl e \<Rightarrow> Inl e | Inr dss \<Rightarrow> Inr (ds # dss)))"

definition merge_in_batches :: "(path \<rightharpoonup> raster) \<Rightarrow> path list \<Rightarrow> nat \<Rightarrow> error + raster" where
  "merge_in_batches fs paths batch_size =
     (if batch_size = 0 then Inl ValueError
      else
        (case batch_loop fs paths batch_size 0 (Map.empty, []) of
           Inl e \<Rightarrow> Inl e
         | Inr (tmpmerge, temp_outputs) \<Rightarrow>
             (case open_outputs tmpmerge temp_outputs of
                Inl e \<Rightarrow> Inl e
              | Inr final_datasets \<Rightarrow> merge final_datasets)))"

section \<open>Tiles and their geographic bounds\<close>

text \<open>
  A tile coordinate is \<^verbatim>\<open>mercantile.Tile(x, y, z)\<close>: column, row and zoom level.
  Geographic coordinates are Python floats; they are modelled as real numbers.

  Modelled from the spec: \<^verbatim>\<open>mercantile.bounds\<close> is a library function, absent from the
  repository's sources.  Section 4.2 of the specification describes it as the inverse
  of the projection of section 4.1 (the standard Web Mercator tiling): the west and
  north edges of a tile are the longitude and latitude of its upper-left corner, its
  east and south edges those of the upper-left corner of the tile one column to the
  right and one row down.
\<close>

record tile =
  tile_x :: int
  tile_y :: int
  tile_z :: nat

record lnglat_bbox =
  west :: real
  south :: real
  east :: real
  north :: real

definition ul_lng :: "nat \<Rightarrow> int \<Rightarrow> real" where
  "ul_lng z x = real_of_int x / 2 ^ z * 360 - 180"

definition ul_lat :: "nat \<Rightarrow> int \<Rightarrow> real" where
  "ul_lat z y = arctan (sinh (pi * (1 - 2 * real_of_int y / 2 ^ z))) * 180 / pi"

definition bounds :: "tile \<Rightarrow> lnglat_bbox" where
  "bounds t =
     \<lparr> west = ul_lng (tile_z t) (tile_x t), south = ul_lat (tile_z t) (tile_y t + 1),
       east = ul_lng (tile_z t) (tile_x t + 1), north = ul_lat (tile_z t) (tile_y t) \<rparr>"

section \<open>Tile enumeration\<close>

text \<open>
  Modelled from the spec: \<^verbatim>\<open>mercantile.tiles(west, south, east, north, zoom)\<close> is a
  library function, absent from the repository's sources; \<^verbatim>\<open>main\<close> calls it with the
  bounds of the area of interest.  Section 4.1 of the specification describes it: the
  corners of the box are projected to tile-index space with the Web Mercator formula,
  the column as the floor of \<open>2 ^ zoom * (lng + 180) / 360\<close> and the row from the
  Mercator-projected latitude; the indices are clipped to \<open>[0, 2 ^ zoom)\<close>; and the
  rectangle of columns and rows between the least and the greatest index is
  enumerated row by row, each row by ascending column.
\<close>

definition lng_frac :: "real \<Rightarrow> real" where
  "lng_frac lng = (lng + 180) / 360"

definition lat_frac :: "real \<Rightarrow> real" where
  "lat_frac lat = (1 - arsinh (tan (lat * pi / 180)) / pi) / 2"

definition clip :: "nat \<Rightarrow> int \<Rightarrow> int" where
  "clip zoom i = max 0 (min (2 ^ zoom - 1) i)"

definition tile_col :: "nat \<Rightarrow> real \<Rightarrow> int" where
  "tile_col zoom lng = clip zoom \<lfloor>2 ^ zoom * lng_frac lng\<rfloor>"

definition tile_row :: "nat \<Rightarrow> real \<Rightarrow> int" where
  "tile_row zoom lat = clip zoom \<lfloor>2 ^ zoom * lat_frac lat\<rfloor>"

definition mercantile_tiles :: "real \<Rightarrow> real \<Rightarrow> real \<Rightarrow> real \<Rightarrow> nat \<Rightarrow> tile list" where
  "mercantile_tiles w s e n zoom =
     (let x_min = min (tile_col zoom w) (tile_col zoom e);
          x_max = max (tile_col zoom w) (tile_col zoom e);
          y_min = min (tile_row zoom s) (tile_row zoom n);
          y_max = max (tile_row zoom s) (tile_row zoom n)
      in concat (map (\<lambda>y. map (\<lambda>x. \<lparr> tile_x = x, tile_y = y, tile_z = zoom \<rparr>) [x_min..x_max])
                     [y_min..y_max]))"

section \<open>Affine transforms\<close>

text \<open>
  The six coefficients of \<^verbatim>\<open>Affine(a, b, c, d, e, f)\<close>; pixel \<open>(col, row)\<close> is mapped to
  \<open>(a * col + b * row + c, d * col + e * row + f)\<close>.

  Modelled from the spec: \<^verbatim>\<open>rasterio.transform.from_bounds\<close> is a library function, absent
  from the repository's sources.  Section 4.2 of the specification describes it: the
  transform that maps the pixel grid of an image of the given width and height onto
  the given bounding box, with uniform pixel sampling.  The pixel sizes are quotients
  by the width and by the height; Python raises \<open>ZeroDivisionError\<close> when one is 0.
\<close>

record affine =
  aff_a :: real
  aff_b :: real
  aff_c :: real
  aff_d :: real
  aff_e :: real
  aff_f :: real

fun apply_affine :: "affine \<Rightarrow> real \<times> real \<Rightarrow> real \<times> real" where
  "apply_affine t (col, row) =
     (aff_a t * col + aff_b t * row + aff_c t, aff_d t * col + aff_e t * row + aff_f t)"

definition from_bounds :: "real \<Rightarrow> real \<Rightarrow> real \<Rightarrow> real \<Rightarrow> nat \<Rightarrow> nat \<Rightarrow> error + affine" where
  "from_bounds w s e n width height =
     (if width = 0 \<or> height = 0 then Inl ZeroDivisionError
      else Inr \<lparr> aff_a = (e - w) / real width, aff_b = 0, aff_c = w,
                 aff_d = 0, aff_e = (s - n) / real height, aff_f = n \<rparr>)"

section \<open>The environment of a fetch\<close>

text \<open>
  What \<^verbatim>\<open>download_and_save_tile\<close> reads from the outside world, as functions it is
  given: \<^verbatim>\<open>session.get(url, timeout=20)\<close> returns a response or raises;
  \<^verbatim>\<open>Image.open(BytesIO(content)).convert("RGB")\<close> returns an image of three 8-bit
  channels or raises; opening a path for writing and writing the bands succeeds or
  raises; \<^verbatim>\<open>print\<close> writes a line or raises.  What is raised is an exception of class
  \<^verbatim>\<open>Exception\<close>, which carries an \<open>error\<close>, or one of the exceptions outside that
  class, \<^verbatim>\<open>KeyboardInterrupt\<close> and \<^verbatim>\<open>SystemExit\<close>.  A file written by the program is a
  GeoTIFF of three 8-bit bands with the transform it was given, in the fixed reference
  system EPSG:4326.
\<close>

record image =
  img_width :: nat
  img_height :: nat
  img_rgb :: "pixel list list"

record geotiff =
  gt_transform :: affine
  gt_width :: nat
  gt_height :: nat
  gt_bands :: "pixel list list"

record response =
  status_code :: nat
  content :: "8 word list"

datatype message =
    FailedDownloadingTile tile error
  | NoImagesDownloaded
  | ErrorDuringMergingOrSaving error
  | SavedOutput path

datatype raised = Exception error | KeyboardInterrupt | SystemExit

record world =
  w_get :: "string \<Rightarrow> raised + response"
  w_image_open :: "8 word list \<Rightarrow> raised + image"
  w_write :: "path \<Rightarrow> raised option"
  w_print :: "message \<Rightarrow> raised option"

section \<open>The tile URL and the scratch path\<close>

text \<open>
  \<^verbatim>\<open>tms_url.format(z=tile.z, x=tile.x, y=tile.y)\<close>: the template is a sequence of literal
  text and replacement fields; a field other than \<open>z\<close>, \<open>x\<close> and \<open>y\<close> raises
  \<open>KeyError\<close>.  \<open>str_nat\<close> and \<open>str_int\<close> are Python's \<^verbatim>\<open>str\<close> on integers.
\<close>

datatype piece = Text string | Field string

function str_nat :: "nat \<Rightarrow> string" where
  "str_nat n = (if n < 10 then [''0123456789'' ! n] else str_nat (n div 10) @ [''0123456789'' ! (n mod 10)])"
  by pat_completeness auto
termination
  by (relation "measure id") auto

declare str_nat.simps [simp del]

definition str_int :: "int \<Rightarrow> string" where
  "str_int i = (if i < 0 then ''-'' @ str_nat (nat (- i)) else str_nat (nat i))"

fun format :: "piece list \<Rightarrow> tile \<Rightarrow> error + string" where
  "format [] t = Inr []"
| "format (Text s # ps) t = (case format ps t of Inl e \<Rightarrow> Inl e | Inr r \<Rightarrow> Inr (s @ r))"
| "format (Field f # ps) t =
     (if f = ''z'' then (case format ps t of Inl e \<Rightarrow> Inl e | Inr r \<Rightarrow> Inr (str_nat (tile_z t) @ r))
      else if f = ''x'' then (case format ps t of Inl e \<Rightarrow> Inl e | Inr r \<Rightarrow> Inr (str_int (tile_x t) @ r))
      else if f = ''y'' then (case format ps t of Inl e \<Rightarrow> Inl e | Inr r \<Rightarrow> Inr (str_int (tile_y t) @ r))
      else Inl KeyError)"

section \<open>Fetching one tile\<close>

text \<open>
  \<^verbatim>\<open>download_and_save_tile(tile, session, tmpdir, tms_url)\<close> of
  \<^verbatim>\<open>planet_downloader.py\<close>.  \<open>try_download\<close> is the body of its \<^verbatim>\<open>try\<close> block, where every
  step may raise: it returns what was raised, or the path and the GeoTIFF written
  there.  The errors of \<^verbatim>\<open>format\<close>, \<^verbatim>\<open>raise_for_status\<close> and \<^verbatim>\<open>from_bounds\<close> are of class
  \<^verbatim>\<open>Exception\<close>; what the calls of the outside world raise is passed on as it is.
  \<^verbatim>\<open>response.raise_for_status()\<close> raises for the status codes 400 to 599.

  \<open>download_and_save_tile\<close> adds the clause \<^verbatim>\<open>except Exception as e\<close>.  When the body
  returns, the file is in the scratch directory and its path is returned.  When the
  body raises an exception of class \<^verbatim>\<open>Exception\<close>, the handler prints it with the tile's
  coordinate and returns \<^verbatim>\<open>None\<close>; the \<^verbatim>\<open>print\<close> is outside the \<^verbatim>\<open>try\<close> block, so what
  it raises leaves the function.  Any other exception is not caught and leaves the
  function.  The result is \<open>Inl\<close> of what leaves the function, or \<open>Inr\<close> of the value
  returned and the new state.
\<close>

definition raise_for_status :: "response \<Rightarrow> error + unit" where
  "raise_for_status r =
     (if 400 \<le> status_code r \<and> status_code r < 600 then Inl (HTTPError (status_code r)) else Inr ())"

definition path_join :: "path \<Rightarrow> path \<Rightarrow> path" where
  "path_join d name = d @ ''/'' @ name"

definition tile_path :: "path \<Rightarrow> tile \<Rightarrow> path" where
  "tile_path tmpdir t =
     path_join tmpdir (str_nat (tile_z t) @ ''_'' @ str_int (tile_x t) @ ''_'' @ str_int (tile_y t) @ ''.tif'')"

definition try_download :: "world \<Rightarrow> tile \<Rightarrow> path \<Rightarrow> piece list \<Rightarrow> raised + (path \<times> geotiff)" where
  "try_download W t tmpdir tms_url =
     (case format tms_url t of Inl e \<Rightarrow> Inl (Exception e) | Inr url \<Rightarrow>
      case w_get W url of Inl b \<Rightarrow> Inl b | Inr response \<Rightarrow>
      case raise_for_status response of Inl e \<Rightarrow> Inl (Exception e) | Inr _ \<Rightarrow>
      case w_image_open W (content response) of Inl b \<Rightarrow> Inl b | Inr img \<Rightarrow>
      let tile_bounds = bounds t in
      case from_bounds (west tile_bounds) (south tile_bounds) (east tile_bounds) (north tile_bounds)
             (img_width img) (img_height img) of Inl e \<Rightarrow> Inl (Exception e) | Inr transform \<Rightarrow>
      let dst_path = tile_path tmpdir t in
      case w_write W dst_path of
        Some b \<Rightarrow> Inl b
      | None \<Rightarrow> Inr (dst_path, \<lparr> gt_transform = transform, gt_width = img_width img,
                                  gt_height = img_height img, gt_bands = img_rgb img \<rparr>))"

record state =
  files :: "path \<rightharpoonup> geotiff"
  outputs :: "path \<rightharpoonup> raster"
  stdout :: "message list"

definition download_and_save_tile ::
  "world \<Rightarrow> tile \<Rightarrow> path \<Rightarrow> piece list \<Rightarrow> state \<Rightarrow> raised + (path option \<times> state)" where
  "download_and_save_tile W t tmpdir tms_url st =
     (case try_download W t tmpdir tms_url of
        Inr (dst_path, tif) \<Rightarrow> Inr (Some dst_path, st\<lparr>files := (files st)(dst_path \<mapsto> tif)\<rparr>)
      | Inl (Exception e) \<Rightarrow>
          (case w_print W (FailedDownloadingTile t e) of
             None \<Rightarrow> Inr (None, st\<lparr>stdout := stdout st @ [FailedDownloadingTile t e]\<rparr>)
           | Some b \<Rightarrow> Inl b)
      | Inl KeyboardInterrupt \<Rightarrow> Inl KeyboardInterrupt
      | Inl SystemExit \<Rightarrow> Inl SystemExit)"

section \<open>The driver\<close>

text \<open>
  \<^verbatim>\<open>main()\<close> of \<^verbatim>\<open>planet_downloader.py\<close>, from the tile list on.  The arguments stand for
  what the first lines of \<^verbatim>\<open>main\<close> compute from the command line: \<open>tiles\<close> is the list of
  enumerated tiles in the order in which their futures complete (any order:
  \<^verbatim>\<open>as_completed\<close>), \<open>TMS_URL\<close> the URL template and \<open>OUTPUT_GEOTIFF\<close> the output path.

  The outside world of \<^verbatim>\<open>main\<close> is an \<open>env\<close>.  Its fetches run in the worker threads of
  the executor, where the calls raise exceptions of class \<^verbatim>\<open>Exception\<close> only, and its
  standard output is open: \<open>world_of\<close> is that world.  \<open>place\<close> is the position at which
  the merge library puts a file with a given transform on its output grid.
  \<open>tmpmerge_ok\<close> says whether the scratch directory of \<^verbatim>\<open>merge_in_batches\<close> works; when
  it does not, writing or reopening a batch file raises there, which \<^verbatim>\<open>merge_in_batches\<close>
  does not catch (lines 74 to 85 and 89).  \<open>writable\<close> says which paths can be written.

  \<open>future_result\<close> is \<^verbatim>\<open>future.result()\<close>, the value \<^verbatim>\<open>download_and_save_tile\<close> returned
  in its worker; in the world of an \<open>env\<close> no exception leaves that function (lemma
  \<open>future_returns\<close> below), so the second branch is never taken.  \<open>run_futures\<close> is the
  loop over the completed futures, which keeps the results that are true (a path that
  is not empty).  \<open>stdout\<close> holds the lines that report an outcome; progress lines are
  left out.  \<^verbatim>\<open>main\<close> returns nothing: what the caller gets is the final state, that is
  the output file and the printed lines.
\<close>

record env =
  session_get :: "string \<Rightarrow> error + response"
  image_open :: "8 word list \<Rightarrow> error + image"
  writable :: "path \<Rightarrow> bool"
  place :: "affine \<Rightarrow> int \<times> int"
  tmpmerge_ok :: bool

definition world_of :: "env \<Rightarrow> world" where
  "world_of E =
     \<lparr> w_get = (\<lambda>url. case session_get E url of Inl e \<Rightarrow> Inl (Exception e) | Inr r \<Rightarrow> Inr r),
       w_image_open = (\<lambda>bytes. case image_open E bytes of Inl e \<Rightarrow> Inl (Exception e) | Inr img \<Rightarrow> Inr img),
       w_write = (\<lambda>p. if writable E p then None else Some (Exception RasterioIOError)),
       w_print = (\<lambda>m. None) \<rparr>"

definition future_result :: "env \<Rightarrow> tile \<Rightarrow> path \<Rightarrow> piece list \<Rightarrow> state \<Rightarrow> path option \<times> state" where
  "future_result E t tmpdir tms_url st =
     (case download_and_save_tile (world_of E) t tmpdir tms_url st of
        Inr result \<Rightarrow> result
      | Inl b \<Rightarrow> (None, st))"

fun run_futures ::
  "env \<Rightarrow> tile list \<Rightarrow> path \<Rightarrow> piece list \<Rightarrow> path list \<times> state \<Rightarrow> path list \<times> state" where
  "run_futures E [] tmpdir tms_url (paths, st) = (paths, st)"
| "run_futures E (t # ts) tmpdir tms_url (paths, st) =
     (case future_result E t tmpdir tms_url st of
        (None, st') \<Rightarrow> run_futures E ts tmpdir tms_url (paths, st')
      | (Some result, st') \<Rightarrow>
          if result \<noteq> [] then run_futures E ts tmpdir tms_url (paths @ [result], st')
          else run_futures E ts tmpdir tms_url (paths, st'))"

definition rasterio_open :: "env \<Rightarrow> (path \<rightharpoonup> geotiff) \<Rightarrow> path \<rightharpoonup> raster" where
  "rasterio_open E fs p =
     (case fs p of
        None \<Rightarrow> None
      | Some tif \<Rightarrow>
          Some \<lparr> r_left = fst (place E (gt_transform tif)), r_top = snd (place E (gt_transform tif)),
                 r_width = gt_width tif, r_height = gt_height tif, r_data = gt_bands tif \<rparr>)"

definition print :: "message \<Rightarrow> state \<Rightarrow> state" where
  "print m st = st\<lparr>stdout := stdout st @ [m]\<rparr>"

definition merge_stage :: "env \<Rightarrow> (path \<rightharpoonup> raster) \<Rightarrow> path list \<Rightarrow> error + raster" where
  "merge_stage E fs paths =
     (if tmpmerge_ok E then merge_in_batches fs paths 500 else Inl RasterioIOError)"

definition main :: "env \<Rightarrow> tile list \<Rightarrow> path \<Rightarrow> piece list \<Rightarrow> path \<Rightarrow> state \<Rightarrow> state" where
  "main E tiles tmpdir TMS_URL OUTPUT_GEOTIFF st0 =
     (case run_futures E tiles tmpdir TMS_URL ([], st0) of
        (paths, st) \<Rightarrow>
          if paths = [] then print NoImagesDownloaded st
          else
            (case merge_stage E (rasterio_open E (files st)) paths of
               Inl e \<Rightarrow> print (ErrorDuringMergingOrSaving e) st
             | Inr mosaic \<Rightarrow>
                 if writable E OUTPUT_GEOTIFF
                 then print (SavedOutput OUTPUT_GEOTIFF)
                        (st\<lparr>outputs := (outputs st)(OUTPUT_GEOTIFF \<mapsto> mosaic)\<rparr>)
                 else print (ErrorDuringMergingOrSaving RasterioIOError) st))"

section \<open>Notions for the properties of the pipeline\<close>

text \<open>
  What is raised is of class \<^verbatim>\<open>Exception\<close>; a world in which the calls raise exceptions
  of that class only and \<^verbatim>\<open>print\<close> does not raise.
\<close>

fun is_Exception :: "raised \<Rightarrow> bool" where
  "is_Exception (Exception e) = True"
| "is_Exception KeyboardInterrupt = False"
| "is_Exception SystemExit = False"

definition raises_only_Exception :: "world \<Rightarrow> bool" where
  "raises_only_Exception W \<longleftrightarrow>
     (\<forall>url b. w_get W url = Inl b \<longrightarrow> is_Exception b) \<and>
     (\<forall>bytes b. w_image_open W bytes = Inl b \<longrightarrow> is_Exception b) \<and>
     (\<forall>p b. w_write W p = Some b \<longrightarrow> is_Exception b) \<and>
     (\<forall>m. w_print W m = None)"

text \<open>
  The results of the fetches that succeed and the (coordinate, reason) pairs of those
  that fail, in the order of the tile list; the files after storing a list of
  results; the failures a list of printed lines reports; the state after all fetches.
\<close>

fun succeeded :: "env \<Rightarrow> path \<Rightarrow> piece list \<Rightarrow> tile list \<Rightarrow> (path \<times> geotiff) list" where
  "succeeded E tmpdir tms_url [] = []"
| "succeeded E tmpdir tms_url (t # ts) =
     (case try_download (world_of E) t tmpdir tms_url of
        Inl b \<Rightarrow> succeeded E tmpdir tms_url ts
      | Inr r \<Rightarrow> r # succeeded E tmpdir tms_url ts)"

fun failed :: "env \<Rightarrow> path \<Rightarrow> piece list \<Rightarrow> tile list \<Rightarrow> (tile \<times> error) list" where
  "failed E tmpdir tms_url [] = []"
| "failed E tmpdir tms_url (t # ts) =
     (case try_download (world_of E) t tmpdir tms_url of
        Inl (Exception e) \<Rightarrow> (t, e) # failed E tmpdir tms_url ts
      | Inl KeyboardInterrupt \<Rightarrow> failed E tmpdir tms_url ts
      | Inl SystemExit \<Rightarrow> failed E tmpdir tms_url ts
      | Inr r \<Rightarrow> failed E tmpdir tms_url ts)"

definition store_all :: "(path \<rightharpoonup> geotiff) \<Rightarrow> (path \<times> geotiff) list \<Rightarrow> (path \<rightharpoonup> geotiff)" where
  "store_all fs rs = foldl (\<lambda>f (p, tif). f(p \<mapsto> tif)) fs rs"

fun skipped :: "message list \<Rightarrow> (tile \<times> error) list" where
  "skipped [] = []"
| "skipped (FailedDownloadingTile t e # ms) = (t, e) # skipped ms"
| "skipped (m # ms) = skipped ms"

definition fetched :: "env \<Rightarrow> tile list \<Rightarrow> path \<Rightarrow> piece list \<Rightarrow> state \<Rightarrow> state" where
  "fetched E tiles tmpdir tms_url st = snd (run_futures E tiles tmpdir tms_url ([], st))"

text \<open>
  Two environments: one in which every request succeeds with a 2 by 2 image, one in
  which every request fails; a URL template and the empty initial state.
\<close>

definition env_ok :: env where
  "env_ok = \<lparr> session_get = (\<lambda>url. Inr \<lparr> status_code = 200, content = [137, 80, 78, 71] \<rparr>),
             image_open = (\<lambda>bytes. Inr \<lparr> img_width = 2, img_height = 2,
                                         img_rgb = [[(1, 2, 3), (4, 5, 6)], [(7, 8, 9), (10, 11, 12)]] \<rparr>),
             writable = (\<lambda>p. True),
             place = (\<lambda>T. (round (aff_c T / aff_a T), 0)),
             tmpmerge_ok = True \<rparr>"

definition url_template :: "piece list" where
  "url_template = [Text ''https://tiles/gmap/'', Field ''z'', Text ''/'', Field ''x'', Text ''/'',
                   Field ''y'', Text ''.png?api_key=k'']"

definition st_empty :: state where
  "st_empty = \<lparr> files = Map.empty, outputs = Map.empty, stdout = [] \<rparr>"

definition env_down :: env where
  "env_down = \<lparr> session_get = (\<lambda>url. Inl RequestException),
               image_open = (\<lambda>bytes. Inl UnidentifiedImageError),
               writable = (\<lambda>p. True),
               place = (\<lambda>T. (0, 0)),
               tmpmerge_ok = True \<rparr>"







section \<open>Notions for the properties of the enumeration\<close>

text \<open>
  The latitude limit of the Web Mercator projection (about 85.0511 degrees), the
  footprint of a tile as a set of points, the row-major order on tiles, and the
  latitude of a fraction of the projected height, of which \<open>ul_lat\<close> is an instance.
\<close>

definition max_lat :: real where
  "max_lat = arctan (sinh pi) * 180 / pi"

definition in_bounds :: "lnglat_bbox \<Rightarrow> real \<Rightarrow> real \<Rightarrow> bool" where
  "in_bounds b lng lat \<longleftrightarrow> west b \<le> lng \<and> lng \<le> east b \<and> south b \<le> lat \<and> lat \<le> north b"

definition row_major :: "tile \<Rightarrow> tile \<Rightarrow> bool" where
  "row_major s t \<longleftrightarrow> tile_y s < tile_y t \<or> (tile_y s = tile_y t \<and> tile_x s < tile_x t)"

definition lat_of_frac :: "real \<Rightarrow> real" where
  "lat_of_frac u = arctan (sinh (pi * (1 - 2 * u))) * 180 / pi"

section \<open>Notions for the properties of the merge\<close>

text \<open>
  What one dataset does to one position of the output grid, the value a list of
  datasets leaves there, and the raster a non-empty list of datasets merges to.
\<close>

definition step :: "int \<Rightarrow> int \<Rightarrow> pixel \<Rightarrow> raster \<Rightarrow> pixel" where
  "step x y p d = (if covers d x y then copy_first p (read_px d x y) else p)"

definition composite :: "raster list \<Rightarrow> int \<Rightarrow> int \<Rightarrow> pixel" where
  "composite ds x y = foldl (step x y) nodata_px ds"

definition mosaic_of :: "raster list \<Rightarrow> raster" where
  "mosaic_of ds =
     render (Min (set (map r_left ds))) (Min (set (map r_top ds)))
       (nat (Max (set (map r_right ds)) - Min (set (map r_left ds))))
       (nat (Max (set (map r_bottom ds)) - Min (set (map r_top ds))))
       (composite ds)"

text \<open>The three bands of a pixel.\<close>

datatype band = Red | Green | Blue

fun sample_of :: "band \<Rightarrow> pixel \<Rightarrow> sample" where
  "sample_of Red (r, g, b) = r"
| "sample_of Green (r, g, b) = g"
| "sample_of Blue (r, g, b) = b"

text \<open>Four small overlapping tiles and a scratch directory holding them.\<close>

definition tile_A :: raster where
  "tile_A = \<lparr> r_left = 0, r_top = 0, r_width = 2, r_height = 1,
              r_data = [[(10, 10, 10), (0, 20, 20)]] \<rparr>"

definition tile_B :: raster where
  "tile_B = \<lparr> r_left = 1, r_top = 0, r_width = 2, r_height = 1,
              r_data = [[(30, 30, 30), (40, 40, 40)]] \<rparr>"

definition tile_C :: raster where
  "tile_C = \<lparr> r_left = 0, r_top = 1, r_width = 1, r_height = 1,
              r_data = [[(50, 50, 50)]] \<rparr>"

definition tile_D :: raster where
  "tile_D = \<lparr> r_left = 2, r_top = 1, r_width = 1, r_height = 1,
              r_data = [[(60, 60, 60)]] \<rparr>"

definition scratch_ABCD :: "path \<rightharpoonup> raster" where
  "scratch_ABCD = [''a'' \<mapsto> tile_A, ''b'' \<mapsto> tile_B, ''c'' \<mapsto> tile_C, ''d'' \<mapsto> tile_D]"

section \<open>Properties of the merge\<close>

declare batch_loop.simps [simp del]

lemma render_sel [simp]:
  "r_left (render L T W H f) = L" "r_top (render L T W H f) = T"
  "r_width (render L T W H f) = W" "r_height (render L T W H f) = H"
  by (simp_all add: render_def)

lemma read_px_render:
  "L \<le> x \<Longrightarrow> x < L + int W \<Longrightarrow> T \<le> y \<Longrightarrow> y < T + int H \<Longrightarrow>
     read_px (render L T W H f) x y = f x y"
proof -
  assume a: "L \<le> x" "x < L + int W" "T \<le> y" "y < T + int H"
  then have "nat (x - L) < W" "nat (y - T) < H" by linarith+
  with a show ?thesis by (simp add: render_def read_px_def)
qed

lemma render_cong:
  "(\<And>x y. L \<le> x \<Longrightarrow> x < L + int W \<Longrightarrow> T \<le> y \<Longrightarrow> y < T + int H \<Longrightarrow> f x y = g x y) \<Longrightarrow>
     render L T W H f = render L T W H g"
  by (simp add: render_def)

lemma paste_render:
  "paste (render L T W H f) src =
     render L T W H (\<lambda>x y. if covers src x y then copy_first (f x y) (read_px src x y) else f x y)"
  unfolding paste_def render_sel
  by (rule render_cong) (simp add: read_px_render)

lemma foldl_paste_render:
  "foldl paste (render L T W H f) ds = render L T W H (\<lambda>x y. foldl (step x y) (f x y) ds)"
proof (induction ds arbitrary: f)
  case Nil
  show ?case by simp
next
  case (Cons d ds)
  show ?case by (simp add: paste_render Cons.IH step_def)
qed

lemma merge_mosaic_of: "merge ds = (if ds = [] then Inl MergeError else Inr (mosaic_of ds))"
proof -
  have "composite ds = (\<lambda>x y. foldl (step x y) nodata_px ds)"
    by (intro ext) (simp add: composite_def)
  then show ?thesis
    by (simp add: merge_def mosaic_of_def foldl_paste_render Let_def)
qed

lemma copy_sample_assoc:
  "copy_sample (copy_sample a b) c = copy_sample a (copy_sample b c)"
  by (simp add: copy_sample_def)

lemma copy_first_assoc: "copy_first (copy_first a b) c = copy_first a (copy_first b c)"
  by (cases a; cases b; cases c) (simp add: copy_sample_assoc)

lemma copy_first_nodata_left [simp]: "copy_first nodata_px p = p"
  by (cases p) (simp add: nodata_px_def copy_sample_def)

lemma copy_first_nodata_right [simp]: "copy_first p nodata_px = p"
  by (cases p) (simp add: nodata_px_def copy_sample_def)

lemma step_copy_first: "step x y p d = copy_first p (step x y nodata_px d)"
  by (simp add: step_def)

lemma foldl_step_copy_first:
  "foldl (step x y) p ds = copy_first p (foldl (step x y) nodata_px ds)"
proof (induction ds arbitrary: p)
  case Nil
  show ?case by simp
next
  case (Cons d ds)
  have "foldl (step x y) p (d # ds) = copy_first (step x y p d) (foldl (step x y) nodata_px ds)"
    using Cons.IH [of "step x y p d"] by simp
  also have "\<dots> = copy_first p (copy_first (step x y nodata_px d) (foldl (step x y) nodata_px ds))"
    by (subst step_copy_first) (simp add: copy_first_assoc)
  also have "\<dots> = copy_first p (foldl (step x y) nodata_px (d # ds))"
    using Cons.IH [of "step x y nodata_px d"] by simp
  finally show ?case .
qed

lemma foldl_step_uncovered:
  "(\<And>d. d \<in> set ds \<Longrightarrow> \<not> covers d x y) \<Longrightarrow> foldl (step x y) p ds = p"
  by (induction ds arbitrary: p) (simp_all add: step_def)

lemma left_le_right: "r_left d \<le> r_right d" and top_le_bottom: "r_top d \<le> r_bottom d"
  by (simp_all add: r_right_def r_bottom_def)

lemma extent_ordered:
  assumes "ds \<noteq> []"
  shows "Min (set (map r_left ds)) \<le> Max (set (map r_right ds))"
    and "Min (set (map r_top ds)) \<le> Max (set (map r_bottom ds))"
proof -
  from assms obtain d where d: "d \<in> set ds" by (cases ds) auto
  have "Min (set (map r_left ds)) \<le> r_left d" using d by (simp add: Min_le)
  also have "\<dots> \<le> r_right d" by (rule left_le_right)
  also have "\<dots> \<le> Max (set (map r_right ds))" using d by (simp add: Max_ge)
  finally show "Min (set (map r_left ds)) \<le> Max (set (map r_right ds))" .
  have "Min (set (map r_top ds)) \<le> r_top d" using d by (simp add: Min_le)
  also have "\<dots> \<le> r_bottom d" by (rule top_le_bottom)
  also have "\<dots> \<le> Max (set (map r_bottom ds))" using d by (simp add: Max_ge)
  finally show "Min (set (map r_top ds)) \<le> Max (set (map r_bottom ds))" .
qed

lemma mosaic_of_extent:
  assumes "ds \<noteq> []"
  shows "r_left (mosaic_of ds) = Min (set (map r_left ds))"
    and "r_top (mosaic_of ds) = Min (set (map r_top ds))"
    and "r_right (mosaic_of ds) = Max (set (map r_right ds))"
    and "r_bottom (mosaic_of ds) = Max (set (map r_bottom ds))"
  using extent_ordered [OF assms] by (simp_all add: mosaic_of_def r_right_def r_bottom_def)

lemma covers_mosaic_of:
  assumes "ds \<noteq> []" "d \<in> set ds" "covers d x y"
  shows "covers (mosaic_of ds) x y"
proof -
  have "Min (set (map r_left ds)) \<le> r_left d" "r_right d \<le> Max (set (map r_right ds))"
       "Min (set (map r_top ds)) \<le> r_top d" "r_bottom d \<le> Max (set (map r_bottom ds))"
    using assms(2) by (simp_all add: Min_le Max_ge)
  with assms(3) show ?thesis
    unfolding covers_def mosaic_of_extent [OF assms(1)] by linarith
qed

lemma read_px_mosaic_of:
  assumes "ds \<noteq> []" "covers (mosaic_of ds) x y"
  shows "read_px (mosaic_of ds) x y = composite ds x y"
proof -
  let ?L = "Min (set (map r_left ds))" and ?T = "Min (set (map r_top ds))"
  let ?R = "Max (set (map r_right ds))" and ?B = "Max (set (map r_bottom ds))"
  from assms(2) have "?L \<le> x" "x < ?R" "?T \<le> y" "y < ?B"
    unfolding covers_def mosaic_of_extent [OF assms(1)] by simp_all
  moreover have "?L \<le> ?R" "?T \<le> ?B" using extent_ordered [OF assms(1)] by simp_all
  ultimately have "?L \<le> x" "x < ?L + int (nat (?R - ?L))" "?T \<le> y" "y < ?T + int (nat (?B - ?T))"
    by simp_all
  then show ?thesis unfolding mosaic_of_def by (rule read_px_render)
qed

lemma step_mosaic_of:
  assumes "g \<noteq> []"
  shows "step x y p (mosaic_of g) = foldl (step x y) p g"
proof (cases "covers (mosaic_of g) x y")
  case True
  then have "step x y p (mosaic_of g) = copy_first p (composite g x y)"
    by (simp add: step_def read_px_mosaic_of [OF assms])
  also have "\<dots> = foldl (step x y) p g"
    unfolding composite_def by (rule foldl_step_copy_first [symmetric])
  finally show ?thesis .
next
  case False
  then have "\<And>d. d \<in> set g \<Longrightarrow> \<not> covers d x y"
    using covers_mosaic_of [OF assms] by blast
  then have "foldl (step x y) p g = p" by (rule foldl_step_uncovered)
  with False show ?thesis by (simp add: step_def)
qed

lemma foldl_step_groups:
  "(\<And>g. g \<in> set gs \<Longrightarrow> g \<noteq> []) \<Longrightarrow>
     foldl (step x y) p (map mosaic_of gs) = foldl (step x y) p (concat gs)"
  by (induction gs arbitrary: p) (simp_all add: step_mosaic_of)

lemma composite_groups:
  "(\<And>g. g \<in> set gs \<Longrightarrow> g \<noteq> []) \<Longrightarrow> composite (map mosaic_of gs) = composite (concat gs)"
  by (intro ext) (simp add: composite_def foldl_step_groups)

lemma Min_groups:
  fixes f :: "'a \<Rightarrow> int"
  assumes "gs \<noteq> []" "\<And>g. g \<in> set gs \<Longrightarrow> g \<noteq> []"
  shows "Min (set (map (\<lambda>g. Min (set (map f g))) gs)) = Min (set (map f (concat gs)))"
  using assms
proof (induction gs rule: list_nonempty_induct)
  case (single g)
  then show ?case by simp
next
  case (cons g gs)
  have g: "g \<noteq> []" and gs: "\<And>h. h \<in> set gs \<Longrightarrow> h \<noteq> []" using cons.prems by simp_all
  have ne: "concat gs \<noteq> []" using cons.hyps gs by (cases gs) auto
  have "Min (set (map f (concat (g # gs)))) = Min (set (map f g) \<union> set (map f (concat gs)))"
    by simp
  also have "\<dots> = min (Min (set (map f g))) (Min (set (map f (concat gs))))"
    using g ne by (intro Min_Un) simp_all
  also have "\<dots> = min (Min (set (map f g))) (Min (set (map (\<lambda>g. Min (set (map f g))) gs)))"
    using cons.IH gs by simp
  also have "\<dots> = Min (set (map (\<lambda>g. Min (set (map f g))) (g # gs)))"
    using cons.hyps by (simp add: Min_insert)
  finally show ?case by simp
qed

lemma Max_groups:
  fixes f :: "'a \<Rightarrow> int"
  assumes "gs \<noteq> []" "\<And>g. g \<in> set gs \<Longrightarrow> g \<noteq> []"
  shows "Max (set (map (\<lambda>g. Max (set (map f g))) gs)) = Max (set (map f (concat gs)))"
  using assms
proof (induction gs rule: list_nonempty_induct)
  case (single g)
  then show ?case by simp
next
  case (cons g gs)
  have g: "g \<noteq> []" and gs: "\<And>h. h \<in> set gs \<Longrightarrow> h \<noteq> []" using cons.prems by simp_all
  have ne: "concat gs \<noteq> []" using cons.hyps gs by (cases gs) auto
  have "Max (set (map f (concat (g # gs)))) = Max (set (map f g) \<union> set (map f (concat gs)))"
    by simp
  also have "\<dots> = max (Max (set (map f g))) (Max (set (map f (concat gs))))"
    using g ne by (intro Max_Un) simp_all
  also have "\<dots> = max (Max (set (map f g))) (Max (set (map (\<lambda>g. Max (set (map f g))) gs)))"
    using cons.IH gs by simp
  also have "\<dots> = Max (set (map (\<lambda>g. Max (set (map f g))) (g # gs)))"
    using cons.hyps by (simp add: Max_insert)
  finally show ?case by simp
qed

lemma mosaic_of_groups:
  assumes "gs \<noteq> []" "\<And>g. g \<in> set gs \<Longrightarrow> g \<noteq> []"
  shows "mosaic_of (map mosaic_of gs) = mosaic_of (concat gs)"
proof -
  have m: "map r_left (map mosaic_of gs) = map (\<lambda>g. Min (set (map r_left g))) gs"
    "map r_top (map mosaic_of gs) = map (\<lambda>g. Min (set (map r_top g))) gs"
    "map r_right (map mosaic_of gs) = map (\<lambda>g. Max (set (map r_right g))) gs"
    "map r_bottom (map mosaic_of gs) = map (\<lambda>g. Max (set (map r_bottom g))) gs"
    using assms(2) by (simp_all add: mosaic_of_extent)
  have L: "Min (set (map r_left (map mosaic_of gs))) = Min (set (map r_left (concat gs)))"
    and T: "Min (set (map r_top (map mosaic_of gs))) = Min (set (map r_top (concat gs)))"
    and R: "Max (set (map r_right (map mosaic_of gs))) = Max (set (map r_right (concat gs)))"
    and B: "Max (set (map r_bottom (map mosaic_of gs))) = Max (set (map r_bottom (concat gs)))"
    by (simp_all only: m Min_groups [OF assms] Max_groups [OF assms])
  have "mosaic_of (map mosaic_of gs) =
      render (Min (set (map r_left (map mosaic_of gs)))) (Min (set (map r_top (map mosaic_of gs))))
       (nat (Max (set (map r_right (map mosaic_of gs))) - Min (set (map r_left (map mosaic_of gs)))))
       (nat (Max (set (map r_bottom (map mosaic_of gs))) - Min (set (map r_top (map mosaic_of gs)))))
       (composite (map mosaic_of gs))"
    by (rule mosaic_of_def)
  also have "\<dots> =
      render (Min (set (map r_left (concat gs)))) (Min (set (map r_top (concat gs))))
       (nat (Max (set (map r_right (concat gs))) - Min (set (map r_left (concat gs)))))
       (nat (Max (set (map r_bottom (concat gs))) - Min (set (map r_top (concat gs)))))
       (composite (concat gs))"
    by (simp only: L T R B composite_groups [OF assms(2)])
  also have "\<dots> = mosaic_of (concat gs)"
    by (rule mosaic_of_def [symmetric])
  finally show ?thesis .
qed

lemma open_batch_append: "open_batch fs (xs @ ys) = open_batch fs xs @ open_batch fs ys"
  by (induction xs) (simp_all split: option.splits)

lemma open_outputs_snoc:
  "open_outputs tmp outs = Inr ms \<Longrightarrow> tmp k = Some m \<Longrightarrow>
     open_outputs tmp (outs @ [k]) = Inr (ms @ [m])"
  by (induction outs arbitrary: ms) (auto split: option.splits sum.splits)

lemma open_outputs_upd_fresh:
  "k \<notin> set outs \<Longrightarrow> open_outputs (tmp(k \<mapsto> m)) outs = open_outputs tmp outs"
  by (induction outs) (auto split: option.splits sum.splits)

lemma open_batch_split:
  "open_batch fs (drop i paths) =
     open_batch fs (take n (drop i paths)) @ open_batch fs (drop (i + n) paths)"
proof -
  have "take n (drop i paths) @ drop (i + n) paths =
        take n (drop i paths) @ drop n (drop i paths)"
    by (simp add: add.commute)
  also have "\<dots> = drop i paths"
    by (rule append_take_drop_id)
  finally show ?thesis by (metis open_batch_append)
qed

lemma batch_loop_groups:
  "0 < batch_size \<Longrightarrow> (\<And>k. k \<in> set outs \<Longrightarrow> k < i) \<Longrightarrow> open_outputs tmp outs = Inr ms \<Longrightarrow>
     \<exists>tmp' outs' gs.
       batch_loop fs paths batch_size i (tmp, outs) = Inr (tmp', outs') \<and>
       open_outputs tmp' outs' = Inr (ms @ map mosaic_of gs) \<and>
       [] \<notin> set gs \<and> concat gs = open_batch fs (drop i paths)"
proof (induction fs paths batch_size i "(tmp, outs)" arbitrary: tmp outs ms rule: batch_loop.induct)
  case (1 fs paths batch_size i tmpmerge temp_outputs)
  show ?case
  proof (cases "length paths \<le> i")
    case True
    then have "batch_loop fs paths batch_size i (tmpmerge, temp_outputs) = Inr (tmpmerge, temp_outputs)"
      by (subst batch_loop.simps) simp
    moreover have "open_outputs tmpmerge temp_outputs = Inr (ms @ map mosaic_of [])"
      using "1.prems"(3) by simp
    moreover have "[] \<notin> set ([] :: raster list list)" "concat [] = open_batch fs (drop i paths)"
      using True by simp_all
    ultimately show ?thesis by blast
  next
    case False
    let ?batch = "take batch_size (drop i paths)"
    let ?datasets = "open_batch fs ?batch"
    have guard: "\<not> (batch_size = 0 \<or> length paths \<le> i)"
      using False "1.prems"(1) by simp
    show ?thesis
    proof (cases "?datasets = []")
      case True
      have lt: "\<And>k. k \<in> set temp_outputs \<Longrightarrow> k < i + batch_size"
        using "1.prems"(2) by fastforce
      from "1.hyps"(1) [OF guard refl refl True "1.prems"(1) lt "1.prems"(3)]
      obtain tmp' outs' gs where r:
        "batch_loop fs paths batch_size (i + batch_size) (tmpmerge, temp_outputs) = Inr (tmp', outs')"
        "open_outputs tmp' outs' = Inr (ms @ map mosaic_of gs)"
        "[] \<notin> set gs" "concat gs = open_batch fs (drop (i + batch_size) paths)"
        by blast
      have "batch_loop fs paths batch_size i (tmpmerge, temp_outputs) = Inr (tmp', outs')"
        using guard True r(1) by (subst batch_loop.simps) (simp add: Let_def)
      moreover have "concat gs = open_batch fs (drop i paths)"
        using r(4) True open_batch_split [of fs i paths batch_size] by simp
      ultimately show ?thesis using r(2,3) by blast
    next
      case False
      let ?m = "mosaic_of ?datasets"
      have mg: "merge ?datasets = Inr ?m"
        using False by (simp add: merge_mosaic_of)
      have lt: "\<And>k. k \<in> set (temp_outputs @ [i]) \<Longrightarrow> k < i + batch_size"
        using "1.prems"(1,2) by fastforce
      have fresh: "i \<notin> set temp_outputs"
        using "1.prems"(2) by blast
      have oo: "open_outputs (tmpmerge(i \<mapsto> ?m)) (temp_outputs @ [i]) = Inr (ms @ [?m])"
        using "1.prems"(3) fresh
        by (intro open_outputs_snoc) (simp_all add: open_outputs_upd_fresh)
      from "1.hyps"(2) [OF guard refl refl False mg "1.prems"(1) lt oo]
      obtain tmp' outs' gs where r:
        "batch_loop fs paths batch_size (i + batch_size) (tmpmerge(i \<mapsto> ?m), temp_outputs @ [i])
           = Inr (tmp', outs')"
        "open_outputs tmp' outs' = Inr ((ms @ [?m]) @ map mosaic_of gs)"
        "[] \<notin> set gs" "concat gs = open_batch fs (drop (i + batch_size) paths)"
        by blast
      have "batch_loop fs paths batch_size i (tmpmerge, temp_outputs) = Inr (tmp', outs')"
        using guard False mg r(1) by (subst batch_loop.simps) (simp add: Let_def)
      moreover have "open_outputs tmp' outs' = Inr (ms @ map mosaic_of (?datasets # gs))"
        using r(2) by simp
      moreover have "[] \<notin> set (?datasets # gs)"
        using False r(3) by simp
      moreover have "concat (?datasets # gs) = open_batch fs (drop i paths)"
        using r(4) open_batch_split [of fs i paths batch_size] by simp
      ultimately show ?thesis by blast
    qed
  qed
qed

lemma merge_in_batches_whole:
  assumes "1 \<le> batch_size"
  shows "merge_in_batches fs paths batch_size = merge (open_batch fs paths)"
proof -
  from assms have pos: "0 < batch_size" by simp
  have "open_outputs Map.empty [] = Inr []" by simp
  have "\<exists>tmp' outs' gs.
       batch_loop fs paths batch_size 0 (Map.empty, []) = Inr (tmp', outs') \<and>
       open_outputs tmp' outs' = Inr ([] @ map mosaic_of gs) \<and>
       [] \<notin> set gs \<and> concat gs = open_batch fs (drop 0 paths)"
    using pos by (rule batch_loop_groups) simp_all
  then obtain tmp' outs' gs where r:
    "batch_loop fs paths batch_size 0 (Map.empty, []) = Inr (tmp', outs')"
    "open_outputs tmp' outs' = Inr (map mosaic_of gs)"
    "[] \<notin> set gs" "concat gs = open_batch fs paths"
    unfolding append_Nil drop_0 by blast
  have ne: "\<And>g. g \<in> set gs \<Longrightarrow> g \<noteq> []" using r(3) by blast
  have "merge_in_batches fs paths batch_size = merge (map mosaic_of gs)"
    using pos r(1,2) by (simp add: merge_in_batches_def)
  also have "\<dots> = merge (concat gs)"
  proof (cases "gs = []")
    case True
    then show ?thesis by simp
  next
    case False
    then have "concat gs \<noteq> []" using ne by (cases gs) auto
    with False show ?thesis
      by (simp add: merge_mosaic_of mosaic_of_groups [OF False ne])
  qed
  finally show ?thesis by (simp add: r(4))
qed

section \<open>Merge associativity\<close>

lemma merge_ABCD:
  "merge [tile_A, tile_B, tile_C, tile_D] =
     Inr \<lparr> r_left = 0, r_top = 0, r_width = 3, r_height = 2,
           r_data = [[(10, 10, 10), (30, 20, 20), (40, 40, 40)],
                     [(50, 50, 50), (0, 0, 0), (60, 60, 60)]] \<rparr>"
  by code_simp

lemma open_scratch_ABCD:
  "open_batch scratch_ABCD [''a'', ''b'', ''c'', ''d''] = [tile_A, tile_B, tile_C, tile_D]"
  by (simp add: scratch_ABCD_def)

text \<open>
  Claim C1.  Merging in batches is merging: for every batch size of at least 1,
  \<open>merge_in_batches\<close> returns what a single merge of all the datasets that open returns
  (the same raster with the same position, or the same error).  In particular, for any
  four tiles A, B, C, D, whatever their overlaps, merging the mosaic of [A, B] with the
  mosaic of [C, D] gives the raster that one merge of [A, B, C, D] gives.
\<close>

theorem merge_in_batches_associative:
  assumes "1 \<le> batch_size"
  shows "merge_in_batches fs paths batch_size = merge (open_batch fs paths) \<and>
         (\<exists>ab cd. merge [A, B] = Inr ab \<and> merge [C, D] = Inr cd \<and>
                  merge [ab, cd] = merge [A, B, C, D])"
proof
  show "merge_in_batches fs paths batch_size = merge (open_batch fs paths)"
    using assms by (rule merge_in_batches_whole)
next
  let ?gs = "[[A, B], [C, D]]"
  have "mosaic_of (map mosaic_of ?gs) = mosaic_of (concat ?gs)"
    by (rule mosaic_of_groups) auto
  then have "merge [mosaic_of [A, B], mosaic_of [C, D]] = merge [A, B, C, D]"
    by (simp add: merge_mosaic_of)
  moreover have "merge [A, B] = Inr (mosaic_of [A, B])" "merge [C, D] = Inr (mosaic_of [C, D])"
    by (simp_all add: merge_mosaic_of)
  ultimately show "\<exists>ab cd. merge [A, B] = Inr ab \<and> merge [C, D] = Inr cd \<and>
                  merge [ab, cd] = merge [A, B, C, D]"
    by blast
qed

theorem merge_in_batches_associative_witness:
  "(1::nat) \<le> 2 \<and>
   merge_in_batches scratch_ABCD [''a'', ''b'', ''c'', ''d''] 2 =
     Inr \<lparr> r_left = 0, r_top = 0, r_width = 3, r_height = 2,
           r_data = [[(10, 10, 10), (30, 20, 20), (40, 40, 40)],
                     [(50, 50, 50), (0, 0, 0), (60, 60, 60)]] \<rparr> \<and>
   (\<exists>ab cd. merge [tile_A, tile_B] = Inr ab \<and> merge [tile_C, tile_D] = Inr cd \<and>
            merge [ab, cd] = merge [tile_A, tile_B, tile_C, tile_D])"
proof -
  have h: "(1::nat) \<le> 2" by simp
  from merge_in_batches_associative [OF h, of scratch_ABCD "[''a'', ''b'', ''c'', ''d'']"
      tile_A tile_B tile_C tile_D]
  show ?thesis
    unfolding open_scratch_ABCD merge_ABCD using h by blast
qed

section \<open>The overlap rule\<close>

lemma sample_of_copy_first:
  "sample_of k (copy_first p q) = copy_sample (sample_of k p) (sample_of k q)"
  by (cases p; cases q; cases k) simp_all

lemma sample_of_nodata_px [simp]: "sample_of k nodata_px = nodata"
  by (cases k) (simp_all add: nodata_px_def)

lemma sample_of_composite:
  "sample_of k (composite ds x y) =
     (case find (\<lambda>d. covers d x y \<and> sample_of k (read_px d x y) \<noteq> nodata) ds of
        None \<Rightarrow> nodata
      | Some d \<Rightarrow> sample_of k (read_px d x y))"
proof (induction ds)
  case Nil
  show ?case by (simp add: composite_def)
next
  case (Cons d ds)
  have "composite (d # ds) x y = copy_first (step x y nodata_px d) (composite ds x y)"
    unfolding composite_def by (simp add: foldl_step_copy_first [of x y "step x y nodata_px d"])
  then show ?case
    using Cons.IH by (simp add: sample_of_copy_first step_def copy_sample_def)
qed

lemma merge_AB:
  "merge [tile_A, tile_B] =
     Inr \<lparr> r_left = 0, r_top = 0, r_width = 3, r_height = 1,
           r_data = [[(10, 10, 10), (30, 20, 20), (40, 40, 40)]] \<rparr>"
  by code_simp

text \<open>
  Claim C2, as amended.  A sample is nodata when it is 0.  At every position of the
  merged raster and in every band, the output sample is the sample of the first
  dataset, in the order of the input list, that covers the position with a sample that
  is not nodata in that band; it is nodata when no dataset does.  So a dataset that
  comes later never replaces a filled sample, and every output sample is a sample of
  one input dataset, never a mixture of two.  The rule holds band by band: the three
  samples of an output pixel may come from different datasets.
\<close>

theorem merge_first_wins:
  assumes "merge datasets = Inr mosaic" and "covers mosaic x y"
  shows "sample_of k (read_px mosaic x y) =
           (case find (\<lambda>d. covers d x y \<and> sample_of k (read_px d x y) \<noteq> nodata) datasets of
              None \<Rightarrow> nodata
            | Some d \<Rightarrow> sample_of k (read_px d x y))"
proof -
  from assms(1) have ne: "datasets \<noteq> []" and m: "mosaic = mosaic_of datasets"
    by (auto simp: merge_mosaic_of split: if_splits)
  from assms(2) have "read_px mosaic x y = composite datasets x y"
    unfolding m by (rule read_px_mosaic_of [OF ne])
  then show ?thesis by (simp add: sample_of_composite)
qed

theorem merge_first_wins_witness:
  "merge [tile_A, tile_B] =
     Inr \<lparr> r_left = 0, r_top = 0, r_width = 3, r_height = 1,
           r_data = [[(10, 10, 10), (30, 20, 20), (40, 40, 40)]] \<rparr> \<and>
   covers \<lparr> r_left = 0, r_top = 0, r_width = 3, r_height = 1,
           r_data = [[(10, 10, 10), (30, 20, 20), (40, 40, 40)]] \<rparr> 1 0 \<and>
   sample_of Red (read_px \<lparr> r_left = 0, r_top = 0, r_width = 3, r_height = 1,
           r_data = [[(10, 10, 10), (30, 20, 20), (40, 40, 40)]] \<rparr> 1 0) =
     (case find (\<lambda>d. covers d 1 0 \<and> sample_of Red (read_px d 1 0) \<noteq> nodata) [tile_A, tile_B] of
        None \<Rightarrow> nodata
      | Some d \<Rightarrow> sample_of Red (read_px d 1 0)) \<and>
   find (\<lambda>d. covers d 1 0 \<and> sample_of Red (read_px d 1 0) \<noteq> nodata) [tile_A, tile_B] = Some tile_B \<and>
   find (\<lambda>d. covers d 1 0 \<and> sample_of Green (read_px d 1 0) \<noteq> nodata) [tile_A, tile_B] = Some tile_A"
proof -
  let ?m = "\<lparr> r_left = 0, r_top = 0, r_width = 3, r_height = 1,
           r_data = [[(10, 10, 10), (30, 20, 20), (40, 40, 40)]] \<rparr>"
  have c: "covers ?m 1 0"
    by (simp add: covers_def r_right_def r_bottom_def)
  have f: "find (\<lambda>d. covers d 1 0 \<and> sample_of Red (read_px d 1 0) \<noteq> nodata) [tile_A, tile_B] = Some tile_B"
    "find (\<lambda>d. covers d 1 0 \<and> sample_of Green (read_px d 1 0) \<noteq> nodata) [tile_A, tile_B] = Some tile_A"
    by (simp_all add: covers_def r_right_def r_bottom_def read_px_def tile_A_def tile_B_def nodata_def)
  from merge_first_wins [OF merge_AB c, of Red] merge_AB c f show ?thesis
    by blast
qed

text \<open>
  The claim as stated fails for whole pixels.  \<open>tile_A\<close> and \<open>tile_B\<close> both cover the
  position \<open>(1, 0)\<close>; the pixel of \<open>tile_A\<close>, first in the order, has a red sample of 0
  and is filled in green and blue.  The output pixel takes its red sample from
  \<open>tile_B\<close> and the others from \<open>tile_A\<close>: it is the pixel of neither tile, and the
  later tile has changed a pixel the first tile provides.
\<close>

theorem first_wins_not_per_pixel:
  "covers tile_A 1 0 \<and> covers tile_B 1 0 \<and>
   read_px tile_A 1 0 = (0, 20, 20) \<and> read_px tile_B 1 0 = (30, 30, 30) \<and>
   merge [tile_A, tile_B] =
     Inr \<lparr> r_left = 0, r_top = 0, r_width = 3, r_height = 1,
           r_data = [[(10, 10, 10), (30, 20, 20), (40, 40, 40)]] \<rparr> \<and>
   read_px \<lparr> r_left = 0, r_top = 0, r_width = 3, r_height = 1,
             r_data = [[(10, 10, 10), (30, 20, 20), (40, 40, 40)]] \<rparr> 1 0 = (30, 20, 20)"
proof -
  have "covers tile_A 1 0" "covers tile_B 1 0"
    "read_px tile_A 1 0 = (0, 20, 20)" "read_px tile_B 1 0 = (30, 30, 30)"
    "read_px \<lparr> r_left = 0, r_top = 0, r_width = 3, r_height = 1,
             r_data = [[(10, 10, 10), (30, 20, 20), (40, 40, 40)]] \<rparr> 1 0 = (30, 20, 20)"
    by (simp_all add: covers_def r_right_def r_bottom_def read_px_def tile_A_def tile_B_def)
  with merge_AB show ?thesis by simp
qed

section \<open>A single group\<close>

text \<open>
  Claim C10.  When the paths are not empty, fit into one batch and all open, the loop
  writes exactly one batch mosaic (that of batch 0), the merge of all the tiles in one
  pass; the final merge reads it back and merges that single raster, which returns it
  unchanged, pixels and position, as the result of \<open>merge_in_batches\<close>.
\<close>

theorem single_group_identity:
  assumes "paths \<noteq> []" and "length paths \<le> batch_size" and "list_all (\<lambda>p. fs p \<noteq> None) paths"
  shows "\<exists>mosaic.
           merge (map (\<lambda>p. the (fs p)) paths) = Inr mosaic \<and>
           batch_loop fs paths batch_size 0 (Map.empty, []) = Inr ([0 \<mapsto> mosaic], [0]) \<and>
           open_outputs [0 \<mapsto> mosaic] [0] = Inr [mosaic] \<and>
           merge [mosaic] = Inr mosaic \<and>
           merge_in_batches fs paths batch_size = Inr mosaic"
proof -
  let ?ds = "map (\<lambda>p. the (fs p)) paths"
  let ?m = "mosaic_of ?ds"
  have ob: "open_batch fs paths = ?ds"
    using assms(3) by (induction paths) auto
  have ne: "?ds \<noteq> []" using assms(1) by simp
  have pos: "batch_size \<noteq> 0" using assms(1,2) by (cases paths) auto
  have m1: "merge ?ds = Inr ?m" using ne by (simp add: merge_mosaic_of)
  have stop: "batch_loop fs paths batch_size (0 + batch_size) ([0 \<mapsto> ?m], [] @ [0]) =
                Inr ([0 \<mapsto> ?m], [0])"
    using assms(2) by (subst batch_loop.simps) simp
  have guard: "\<not> (batch_size = 0 \<or> length paths \<le> 0)"
    using assms(1) pos by simp
  have whole: "take batch_size (drop 0 paths) = paths"
    using assms(2) by simp
  have loop: "batch_loop fs paths batch_size 0 (Map.empty, []) = Inr ([0 \<mapsto> ?m], [0])"
    by (subst batch_loop.simps)
       (simp only: guard if_False Let_def whole ob ne m1 sum.case stop)
  have "mosaic_of (map mosaic_of [?ds]) = mosaic_of (concat [?ds])"
    by (rule mosaic_of_groups) (simp_all add: assms(1))
  then have m2: "merge [?m] = Inr ?m" by (simp add: merge_mosaic_of)
  have "merge_in_batches fs paths batch_size = Inr ?m"
    using pos loop m2 by (simp add: merge_in_batches_def)
  with m1 loop m2 show ?thesis by simp
qed

theorem single_group_identity_witness:
  "[''a'', ''b''] \<noteq> [] \<and> length [''a'', ''b''] \<le> (500::nat) \<and>
   list_all (\<lambda>p. scratch_ABCD p \<noteq> None) [''a'', ''b''] \<and>
   (\<exists>mosaic.
      merge (map (\<lambda>p. the (scratch_ABCD p)) [''a'', ''b'']) = Inr mosaic \<and>
      batch_loop scratch_ABCD [''a'', ''b''] 500 0 (Map.empty, []) = Inr ([0 \<mapsto> mosaic], [0]) \<and>
      open_outputs [0 \<mapsto> mosaic] [0] = Inr [mosaic] \<and>
      merge [mosaic] = Inr mosaic \<and>
      merge_in_batches scratch_ABCD [''a'', ''b''] 500 = Inr mosaic)"
proof -
  have h1: "[''a'', ''b''] \<noteq> ([] :: path list)" by simp
  have h2: "length [''a'', ''b''] \<le> (500::nat)" by simp
  have h3: "list_all (\<lambda>p. scratch_ABCD p \<noteq> None) [''a'', ''b'']"
    by (simp add: scratch_ABCD_def)
  from single_group_identity [OF h1 h2 h3] h1 h2 h3 show ?thesis by blast
qed

section \<open>Fetch totality\<close>

lemma str_nat_digit: "n < 10 \<Longrightarrow> str_nat n = [''0123456789'' ! n]"
  by (subst str_nat.simps) simp


lemma str_nat_example: "str_nat 1234 = ''1234''"
  by code_simp

lemma try_download_path:
  "try_download W t tmpdir tms_url = Inr (p, tif) \<Longrightarrow> p = tile_path tmpdir t"
  by (auto simp: try_download_def Let_def split: sum.splits option.splits)

lemma tile_path_nonempty: "tile_path tmpdir t \<noteq> []"
  by (simp add: tile_path_def path_join_def)

lemma try_download_image:
  assumes "try_download W t tmpdir tms_url = Inr (p, tif)"
  shows "\<exists>url response img.
           format tms_url t = Inr url \<and> w_get W url = Inr response \<and>
           w_image_open W (content response) = Inr img \<and>
           from_bounds (west (bounds t)) (south (bounds t)) (east (bounds t)) (north (bounds t))
             (img_width img) (img_height img) = Inr (gt_transform tif) \<and>
           gt_width tif = img_width img \<and> gt_height tif = img_height img \<and>
           gt_bands tif = img_rgb img"
  using assms by (auto simp: try_download_def Let_def split: sum.splits option.splits)

lemma try_download_raises:
  assumes "raises_only_Exception W" and "try_download W t tmpdir tms_url = Inl b"
  shows "is_Exception b"
  using assms
  by (auto simp: try_download_def raises_only_Exception_def Let_def split: sum.splits option.splits)

lemma is_Exception_cases: "is_Exception b \<Longrightarrow> \<exists>e. b = Exception e"
  by (cases b) simp_all

lemma world_of_raises: "raises_only_Exception (world_of E)"
  by (auto simp: raises_only_Exception_def world_of_def split: sum.splits if_splits)

lemma try_download_world_of:
  "try_download (world_of E) t tmpdir tms_url = Inl b \<Longrightarrow> \<exists>e. b = Exception e"
  using try_download_raises [OF world_of_raises] is_Exception_cases by blast

lemma future_returns:
  "download_and_save_tile (world_of E) t tmpdir tms_url st = Inr (future_result E t tmpdir tms_url st)"
proof (cases "try_download (world_of E) t tmpdir tms_url")
  case (Inl b)
  then obtain e where "b = Exception e"
    using try_download_world_of by blast
  with Inl show ?thesis
    by (simp add: future_result_def download_and_save_tile_def world_of_def)
next
  case (Inr r)
  then show ?thesis
    by (cases r) (simp add: future_result_def download_and_save_tile_def)
qed

lemma fetch_ok:
  "\<exists>tif. try_download (world_of env_ok) \<lparr>tile_x = 3, tile_y = 5, tile_z = 4\<rparr> ''/tmp'' url_template =
           Inr (''/tmp/4_3_5.tif'', tif)"
  by (simp add: try_download_def url_template_def str_int_def str_nat_digit world_of_def env_ok_def
      raise_for_status_def from_bounds_def tile_path_def path_join_def Let_def)




text \<open>
  Four failing fetches: a response with status 404, a body that does not decode, a
  scratch directory that cannot be written, and a template with an unknown field.
\<close>

lemma fetch_http_404:
  "download_and_save_tile
     (world_of (env_ok\<lparr>session_get := (\<lambda>url. Inr \<lparr> status_code = 404, content = [] \<rparr>)\<rparr>))
     \<lparr>tile_x = 3, tile_y = 5, tile_z = 4\<rparr> ''/tmp'' url_template st_empty =
   Inr (None, st_empty\<lparr>stdout := [FailedDownloadingTile \<lparr>tile_x = 3, tile_y = 5, tile_z = 4\<rparr>
                                       (HTTPError 404)]\<rparr>)"
  by (simp add: download_and_save_tile_def try_download_def url_template_def world_of_def env_ok_def
      raise_for_status_def st_empty_def)

lemma fetch_undecodable:
  "download_and_save_tile
     (world_of (env_ok\<lparr>image_open := (\<lambda>bytes. Inl UnidentifiedImageError)\<rparr>))
     \<lparr>tile_x = 3, tile_y = 5, tile_z = 4\<rparr> ''/tmp'' url_template st_empty =
   Inr (None, st_empty\<lparr>stdout := [FailedDownloadingTile \<lparr>tile_x = 3, tile_y = 5, tile_z = 4\<rparr>
                                       UnidentifiedImageError]\<rparr>)"
  by (simp add: download_and_save_tile_def try_download_def url_template_def world_of_def env_ok_def
      raise_for_status_def st_empty_def)

lemma fetch_write_error:
  "download_and_save_tile
     (world_of (env_ok\<lparr>writable := (\<lambda>p. False)\<rparr>))
     \<lparr>tile_x = 3, tile_y = 5, tile_z = 4\<rparr> ''/tmp'' url_template st_empty =
   Inr (None, st_empty\<lparr>stdout := [FailedDownloadingTile \<lparr>tile_x = 3, tile_y = 5, tile_z = 4\<rparr>
                                       RasterioIOError]\<rparr>)"
  by (simp add: download_and_save_tile_def try_download_def url_template_def world_of_def env_ok_def
      raise_for_status_def from_bounds_def st_empty_def Let_def)

lemma fetch_bad_template:
  "download_and_save_tile (world_of env_ok) \<lparr>tile_x = 3, tile_y = 5, tile_z = 4\<rparr> ''/tmp''
     [Text ''https://tiles/'', Field ''q''] st_empty =
   Inr (None, st_empty\<lparr>stdout := [FailedDownloadingTile \<lparr>tile_x = 3, tile_y = 5, tile_z = 4\<rparr> KeyError]\<rparr>)"
  by (simp add: download_and_save_tile_def try_download_def world_of_def st_empty_def)

section \<open>Georeferencing\<close>

lemma from_bounds_corners:
  assumes "from_bounds w s e n width height = Inr T"
  shows "apply_affine T (0, 0) = (w, n)"
    and "apply_affine T (real width, 0) = (e, n)"
    and "apply_affine T (0, real height) = (w, s)"
    and "apply_affine T (real width, real height) = (e, s)"
proof -
  from assms have pos: "width \<noteq> 0" "height \<noteq> 0"
    and T: "T = \<lparr> aff_a = (e - w) / real width, aff_b = 0, aff_c = w,
                  aff_d = 0, aff_e = (s - n) / real height, aff_f = n \<rparr>"
    by (auto simp: from_bounds_def split: if_splits)
  show "apply_affine T (0, 0) = (w, n)" by (simp add: T)
  show "apply_affine T (real width, 0) = (e, n)" using pos by (simp add: T)
  show "apply_affine T (0, real height) = (w, s)" using pos by (simp add: T)
  show "apply_affine T (real width, real height) = (e, s)" using pos by (simp add: T)
qed

lemma download_returns_path:
  assumes "download_and_save_tile W t tmpdir tms_url st = Inr (Some dst_path, st')"
  shows "\<exists>tif. try_download W t tmpdir tms_url = Inr (dst_path, tif) \<and> files st' dst_path = Some tif"
proof (cases "try_download W t tmpdir tms_url")
  case (Inl b)
  with assms show ?thesis
    by (cases b) (auto simp: download_and_save_tile_def split: option.splits)
next
  case (Inr r)
  with assms show ?thesis
    by (cases r) (auto simp: download_and_save_tile_def)
qed

lemma fetch_ok_returns:
  "\<exists>st'. download_and_save_tile (world_of env_ok) \<lparr>tile_x = 3, tile_y = 5, tile_z = 4\<rparr> ''/tmp''
            url_template st_empty = Inr (Some ''/tmp/4_3_5.tif'', st')"
  using fetch_ok by (auto simp: download_and_save_tile_def)

text \<open>
  Claim C9.  For every tile whose fetch returns a path: the request for the tile's URL
  returned a response, its body was decoded to an image, and the GeoTIFF stored at that
  path has the width, the height and the samples of that image and a transform that
  maps the four corners of the image's pixel grid, \<open>(0, 0)\<close>, \<open>(width, 0)\<close>,
  \<open>(0, height)\<close> and \<open>(width, height)\<close>, onto the corners (west, north), (east, north),
  (west, south) and (east, south) of the tile's geographic bounds.  Coordinates are
  real numbers here.
\<close>

theorem georeferencing_corners:
  assumes "download_and_save_tile W t tmpdir tms_url st = Inr (Some dst_path, st')"
  shows "\<exists>url response img tif.
           format tms_url t = Inr url \<and> w_get W url = Inr response \<and>
           w_image_open W (content response) = Inr img \<and>
           files st' dst_path = Some tif \<and>
           gt_width tif = img_width img \<and> gt_height tif = img_height img \<and>
           gt_bands tif = img_rgb img \<and>
           apply_affine (gt_transform tif) (0, 0) = (west (bounds t), north (bounds t)) \<and>
           apply_affine (gt_transform tif) (real (img_width img), 0) = (east (bounds t), north (bounds t)) \<and>
           apply_affine (gt_transform tif) (0, real (img_height img)) = (west (bounds t), south (bounds t)) \<and>
           apply_affine (gt_transform tif) (real (img_width img), real (img_height img)) =
             (east (bounds t), south (bounds t))"
proof -
  from assms obtain tif where
    d: "try_download W t tmpdir tms_url = Inr (dst_path, tif)" and f: "files st' dst_path = Some tif"
    using download_returns_path by blast
  from d obtain url response img where
    i: "format tms_url t = Inr url" "w_get W url = Inr response"
       "w_image_open W (content response) = Inr img"
       "gt_width tif = img_width img" "gt_height tif = img_height img" "gt_bands tif = img_rgb img"
    and T: "from_bounds (west (bounds t)) (south (bounds t)) (east (bounds t)) (north (bounds t))
              (img_width img) (img_height img) = Inr (gt_transform tif)"
    using try_download_image [of W t tmpdir tms_url dst_path tif] by blast
  from from_bounds_corners [OF T] i f show ?thesis by blast
qed

theorem georeferencing_corners_witness:
  "\<exists>st' tif.
     download_and_save_tile (world_of env_ok) \<lparr>tile_x = 3, tile_y = 5, tile_z = 4\<rparr> ''/tmp''
       url_template st_empty = Inr (Some ''/tmp/4_3_5.tif'', st') \<and>
     files st' ''/tmp/4_3_5.tif'' = Some tif \<and>
     gt_width tif = 2 \<and> gt_height tif = 2 \<and>
     gt_bands tif = [[(1, 2, 3), (4, 5, 6)], [(7, 8, 9), (10, 11, 12)]] \<and>
     apply_affine (gt_transform tif) (0, 0) =
       (west (bounds \<lparr>tile_x = 3, tile_y = 5, tile_z = 4\<rparr>), north (bounds \<lparr>tile_x = 3, tile_y = 5, tile_z = 4\<rparr>)) \<and>
     apply_affine (gt_transform tif) (2, 0) =
       (east (bounds \<lparr>tile_x = 3, tile_y = 5, tile_z = 4\<rparr>), north (bounds \<lparr>tile_x = 3, tile_y = 5, tile_z = 4\<rparr>)) \<and>
     apply_affine (gt_transform tif) (0, 2) =
       (west (bounds \<lparr>tile_x = 3, tile_y = 5, tile_z = 4\<rparr>), south (bounds \<lparr>tile_x = 3, tile_y = 5, tile_z = 4\<rparr>)) \<and>
     apply_affine (gt_transform tif) (2, 2) =
       (east (bounds \<lparr>tile_x = 3, tile_y = 5, tile_z = 4\<rparr>), south (bounds \<lparr>tile_x = 3, tile_y = 5, tile_z = 4\<rparr>))"
proof -
  let ?t = "\<lparr>tile_x = 3, tile_y = 5, tile_z = 4\<rparr>"
  obtain st' where
    r: "download_and_save_tile (world_of env_ok) ?t ''/tmp'' url_template st_empty =
          Inr (Some ''/tmp/4_3_5.tif'', st')"
    using fetch_ok_returns by blast
  have "\<And>bytes img. w_image_open (world_of env_ok) bytes = Inr img \<Longrightarrow>
          img_width img = 2 \<and> img_height img = 2 \<and>
          img_rgb img = [[(1, 2, 3), (4, 5, 6)], [(7, 8, 9), (10, 11, 12)]]"
    by (auto simp: world_of_def env_ok_def)
  with georeferencing_corners [OF r]
  have "\<exists>tif. files st' ''/tmp/4_3_5.tif'' = Some tif \<and>
     gt_width tif = 2 \<and> gt_height tif = 2 \<and>
     gt_bands tif = [[(1, 2, 3), (4, 5, 6)], [(7, 8, 9), (10, 11, 12)]] \<and>
     apply_affine (gt_transform tif) (0, 0) = (west (bounds ?t), north (bounds ?t)) \<and>
     apply_affine (gt_transform tif) (2, 0) = (east (bounds ?t), north (bounds ?t)) \<and>
     apply_affine (gt_transform tif) (0, 2) = (west (bounds ?t), south (bounds ?t)) \<and>
     apply_affine (gt_transform tif) (2, 2) = (east (bounds ?t), south (bounds ?t))"
    by fastforce
  with r show ?thesis by blast
qed

section \<open>Failure isolation and reporting\<close>

lemma future_result_failure:
  "try_download (world_of E) t tmpdir tms_url = Inl (Exception e) \<Longrightarrow>
     future_result E t tmpdir tms_url st = (None, st\<lparr>stdout := stdout st @ [FailedDownloadingTile t e]\<rparr>)"
  by (simp add: future_result_def download_and_save_tile_def world_of_def)

lemma future_result_success:
  "try_download (world_of E) t tmpdir tms_url = Inr (p, tif) \<Longrightarrow>
     future_result E t tmpdir tms_url st = (Some p, st\<lparr>files := (files st)(p \<mapsto> tif)\<rparr>)"
  by (simp add: future_result_def download_and_save_tile_def)

lemma run_futures_eq:
  "run_futures E ts tmpdir tms_url (paths, st) =
     (paths @ map fst (succeeded E tmpdir tms_url ts),
      st\<lparr>files := store_all (files st) (succeeded E tmpdir tms_url ts),
         stdout := stdout st @ map (\<lambda>(t, e). FailedDownloadingTile t e) (failed E tmpdir tms_url ts)\<rparr>)"
proof (induction ts arbitrary: paths st)
  case Nil
  show ?case by (simp add: store_all_def)
next
  case (Cons t ts)
  show ?case
  proof (cases "try_download (world_of E) t tmpdir tms_url")
    case (Inl b)
    then obtain e where "b = Exception e"
      using try_download_world_of by blast
    with Inl show ?thesis
      by (simp add: future_result_failure Cons.IH)
  next
    case (Inr r)
    obtain p tif where r: "r = (p, tif)" by (cases r)
    from Inr r have "p \<noteq> []"
      using try_download_path [of "world_of E" t tmpdir tms_url p tif] tile_path_nonempty by simp
    with Inr r show ?thesis
      by (simp add: future_result_success Cons.IH store_all_def)
  qed
qed



lemma skipped_failed [simp]: "skipped (map (\<lambda>(t, e). FailedDownloadingTile t e) fs) = fs"
  by (induction fs) auto

lemma main_cases:
  fixes E tiles tmpdir tms_url out st
  defines "paths \<equiv> map fst (succeeded E tmpdir tms_url tiles)"
    and "st1 \<equiv> fetched E tiles tmpdir tms_url st"
  shows "main E tiles tmpdir tms_url out st =
     (if paths = [] then print NoImagesDownloaded st1
      else
        (case merge_stage E (rasterio_open E (files st1)) paths of
           Inl e \<Rightarrow> print (ErrorDuringMergingOrSaving e) st1
         | Inr mosaic \<Rightarrow>
             if writable E out
             then print (SavedOutput out) (st1\<lparr>outputs := (outputs st1)(out \<mapsto> mosaic)\<rparr>)
             else print (ErrorDuringMergingOrSaving RasterioIOError) st1))"
proof -
  have "run_futures E tiles tmpdir tms_url ([], st) = (paths, st1)"
    by (simp add: paths_def st1_def fetched_def run_futures_eq)
  then show ?thesis by (simp add: main_def)
qed












section \<open>The merge failure contract\<close>

lemma merge_in_batches_none_open:
  "1 \<le> batch_size \<Longrightarrow> open_batch fs paths = [] \<Longrightarrow>
     merge_in_batches fs paths batch_size = Inl MergeError"
  by (simp add: merge_in_batches_whole merge_mosaic_of)

lemma main_no_images:
  assumes "succeeded E tmpdir tms_url tiles = []"
  shows "main E tiles tmpdir tms_url out st =
           st\<lparr>stdout := stdout st @ map (\<lambda>(t, e). FailedDownloadingTile t e) (failed E tmpdir tms_url tiles)
                          @ [NoImagesDownloaded]\<rparr>"
  unfolding main_cases using assms
  by (simp add: print_def fetched_def run_futures_eq store_all_def)

lemma try_download_down:
  "try_download (world_of env_down) t ''/tmp'' url_template = Inl (Exception RequestException)"
  by (simp add: try_download_def url_template_def world_of_def env_down_def split: sum.splits)

text \<open>
  Claim C5, as amended.  With a batch size of at least 1, \<open>merge_in_batches\<close> fails with
  \<open>MergeError\<close> when no path of its input opens, and so when the input is empty.  When
  no tile is fetched successfully, \<open>main\<close> prints the failures and
  \<open>No images downloaded\<close> and returns before the merge: no merge error is reported and
  no output file is written.
\<close>

theorem merge_failure_contract:
  "(1 \<le> batch_size \<and> open_batch fs paths = [] \<longrightarrow>
      merge_in_batches fs paths batch_size = Inl MergeError \<and>
      merge_in_batches fs [] batch_size = Inl MergeError) \<and>
   (succeeded E tmpdir tms_url tiles = [] \<longrightarrow>
      stdout (main E tiles tmpdir tms_url out st) =
        stdout st @ map (\<lambda>(t, e). FailedDownloadingTile t e) (failed E tmpdir tms_url tiles)
          @ [NoImagesDownloaded] \<and>
      outputs (main E tiles tmpdir tms_url out st) = outputs st)"
proof (intro conjI impI)
  assume a: "1 \<le> batch_size \<and> open_batch fs paths = []"
  then show "merge_in_batches fs paths batch_size = Inl MergeError"
    by (simp add: merge_in_batches_none_open)
  from a show "merge_in_batches fs [] batch_size = Inl MergeError"
    by (simp add: merge_in_batches_none_open)
next
  assume "succeeded E tmpdir tms_url tiles = []"
  then have m: "main E tiles tmpdir tms_url out st =
           st\<lparr>stdout := stdout st @ map (\<lambda>(t, e). FailedDownloadingTile t e) (failed E tmpdir tms_url tiles)
                          @ [NoImagesDownloaded]\<rparr>"
    by (rule main_no_images)
  show "stdout (main E tiles tmpdir tms_url out st) =
        stdout st @ map (\<lambda>(t, e). FailedDownloadingTile t e) (failed E tmpdir tms_url tiles)
          @ [NoImagesDownloaded]"
    by (simp add: m)
  show "outputs (main E tiles tmpdir tms_url out st) = outputs st"
    by (simp add: m)
qed

theorem merge_failure_contract_witness:
  "(1::nat) \<le> 500 \<and> open_batch scratch_ABCD [''x'', ''y''] = [] \<and>
   merge_in_batches scratch_ABCD [''x'', ''y''] 500 = Inl MergeError \<and>
   merge_in_batches scratch_ABCD [] 500 = Inl MergeError \<and>
   succeeded env_down ''/tmp'' url_template
     [\<lparr>tile_x = 3, tile_y = 5, tile_z = 4\<rparr>, \<lparr>tile_x = 4, tile_y = 5, tile_z = 4\<rparr>] = [] \<and>
   stdout (main env_down [\<lparr>tile_x = 3, tile_y = 5, tile_z = 4\<rparr>, \<lparr>tile_x = 4, tile_y = 5, tile_z = 4\<rparr>]
             ''/tmp'' url_template ''data/aoi_2020_01.tif'' st_empty) =
     [FailedDownloadingTile \<lparr>tile_x = 3, tile_y = 5, tile_z = 4\<rparr> RequestException,
      FailedDownloadingTile \<lparr>tile_x = 4, tile_y = 5, tile_z = 4\<rparr> RequestException,
      NoImagesDownloaded] \<and>
   outputs (main env_down [\<lparr>tile_x = 3, tile_y = 5, tile_z = 4\<rparr>, \<lparr>tile_x = 4, tile_y = 5, tile_z = 4\<rparr>]
             ''/tmp'' url_template ''data/aoi_2020_01.tif'' st_empty) = Map.empty"
proof -
  let ?ts = "[\<lparr>tile_x = 3, tile_y = 5, tile_z = 4\<rparr>, \<lparr>tile_x = 4, tile_y = 5, tile_z = 4\<rparr>]"
  have h1: "(1::nat) \<le> 500 \<and> open_batch scratch_ABCD [''x'', ''y''] = []"
    by (simp add: scratch_ABCD_def)
  have h2: "succeeded env_down ''/tmp'' url_template ?ts = []"
    by (simp add: try_download_down)
  have f: "failed env_down ''/tmp'' url_template ?ts =
             [(\<lparr>tile_x = 3, tile_y = 5, tile_z = 4\<rparr>, RequestException),
              (\<lparr>tile_x = 4, tile_y = 5, tile_z = 4\<rparr>, RequestException)]"
    by (simp add: try_download_down)
  let ?final = "main env_down ?ts ''/tmp'' url_template ''data/aoi_2020_01.tif'' st_empty"
  from merge_failure_contract [of 500 scratch_ABCD "[''x'', ''y'']" env_down "''/tmp''" url_template
      ?ts "''data/aoi_2020_01.tif''" st_empty] h1 h2
  have c: "merge_in_batches scratch_ABCD [''x'', ''y''] 500 = Inl MergeError"
      "merge_in_batches scratch_ABCD [] 500 = Inl MergeError"
      "stdout ?final =
         stdout st_empty @ map (\<lambda>(t, e). FailedDownloadingTile t e) (failed env_down ''/tmp'' url_template ?ts)
           @ [NoImagesDownloaded]"
      "outputs ?final = outputs st_empty"
    by blast+
  have e: "stdout st_empty @ map (\<lambda>(t, e). FailedDownloadingTile t e) (failed env_down ''/tmp'' url_template ?ts)
           @ [NoImagesDownloaded] =
     [FailedDownloadingTile \<lparr>tile_x = 3, tile_y = 5, tile_z = 4\<rparr> RequestException,
      FailedDownloadingTile \<lparr>tile_x = 4, tile_y = 5, tile_z = 4\<rparr> RequestException,
      NoImagesDownloaded]"
    "outputs st_empty = Map.empty"
    unfolding f by (simp_all add: st_empty_def)
  from h1 h2 c(1,2) c(3) [unfolded e] c(4) [unfolded e] show ?thesis by blast
qed

text \<open>
  The claim as stated fails: with one tile whose fetch fails, \<open>main\<close> ends with
  \<open>No images downloaded\<close> and reports no \<open>MergeError\<close>.
\<close>

theorem zero_tiles_no_merge_error:
  "succeeded env_down ''/tmp'' url_template [\<lparr>tile_x = 3, tile_y = 5, tile_z = 4\<rparr>] = [] \<and>
   stdout (main env_down [\<lparr>tile_x = 3, tile_y = 5, tile_z = 4\<rparr>] ''/tmp'' url_template
             ''data/aoi_2020_01.tif'' st_empty) =
     [FailedDownloadingTile \<lparr>tile_x = 3, tile_y = 5, tile_z = 4\<rparr> RequestException, NoImagesDownloaded] \<and>
   ErrorDuringMergingOrSaving MergeError \<notin>
     set (stdout (main env_down [\<lparr>tile_x = 3, tile_y = 5, tile_z = 4\<rparr>] ''/tmp'' url_template
                    ''data/aoi_2020_01.tif'' st_empty))"
proof -
  have s: "succeeded env_down ''/tmp'' url_template [\<lparr>tile_x = 3, tile_y = 5, tile_z = 4\<rparr>] = []"
    by (simp add: try_download_down)
  have "main env_down [\<lparr>tile_x = 3, tile_y = 5, tile_z = 4\<rparr>] ''/tmp'' url_template
          ''data/aoi_2020_01.tif'' st_empty =
        st_empty\<lparr>stdout := [FailedDownloadingTile \<lparr>tile_x = 3, tile_y = 5, tile_z = 4\<rparr> RequestException,
                             NoImagesDownloaded]\<rparr>"
    by (simp add: main_def future_result_failure try_download_down print_def st_empty_def)
  with s show ?thesis by simp
qed
section \<open>The tile enumeration\<close>

lemma clip_range: "0 \<le> clip zoom i" "clip zoom i < 2 ^ zoom" "clip zoom i \<le> 2 ^ zoom - 1"
  by (simp_all add: clip_def)

lemma clip_mono: "i \<le> j \<Longrightarrow> clip zoom i \<le> clip zoom j"
  by (auto simp: clip_def)

lemma clip_floor_brackets:
  fixes X :: real
  assumes "0 \<le> X" "X \<le> 2 ^ zoom"
  shows "real_of_int (clip zoom \<lfloor>X\<rfloor>) \<le> X" "X \<le> real_of_int (clip zoom \<lfloor>X\<rfloor>) + 1"
proof -
  have f0: "0 \<le> \<lfloor>X\<rfloor>" using assms(1) by simp
  have "\<lfloor>X\<rfloor> \<le> \<lfloor>(2::real) ^ zoom\<rfloor>" using assms(2) by (rule floor_mono)
  then have f1: "\<lfloor>X\<rfloor> \<le> 2 ^ zoom" by simp
  show "real_of_int (clip zoom \<lfloor>X\<rfloor>) \<le> X"
  proof -
    have "clip zoom \<lfloor>X\<rfloor> \<le> \<lfloor>X\<rfloor>" using f0 by (simp add: clip_def)
    then have "real_of_int (clip zoom \<lfloor>X\<rfloor>) \<le> real_of_int \<lfloor>X\<rfloor>" by simp
    also have "\<dots> \<le> X" by simp
    finally show ?thesis .
  qed
  show "X \<le> real_of_int (clip zoom \<lfloor>X\<rfloor>) + 1"
  proof (cases "\<lfloor>X\<rfloor> \<le> 2 ^ zoom - 1")
    case True
    then have "clip zoom \<lfloor>X\<rfloor> = \<lfloor>X\<rfloor>" using f0 by (simp add: clip_def)
    moreover have "X \<le> real_of_int \<lfloor>X\<rfloor> + 1" by linarith
    ultimately show ?thesis by simp
  next
    case False
    then have "clip zoom \<lfloor>X\<rfloor> = 2 ^ zoom - 1" by (simp add: clip_def)
    then have "real_of_int (clip zoom \<lfloor>X\<rfloor>) + 1 = 2 ^ zoom" by simp
    with assms(2) show ?thesis by simp
  qed
qed
lemma ul_lat_frac: "ul_lat z y = lat_of_frac (real_of_int y / 2 ^ z)"
  by (simp add: ul_lat_def lat_of_frac_def)

lemma lat_of_frac_le_iff: "lat_of_frac u \<le> lat_of_frac v \<longleftrightarrow> v \<le> u"
proof -
  have "lat_of_frac u \<le> lat_of_frac v \<longleftrightarrow>
        arctan (sinh (pi * (1 - 2 * u))) \<le> arctan (sinh (pi * (1 - 2 * v)))"
    by (simp add: lat_of_frac_def divide_le_cancel)
  also have "\<dots> \<longleftrightarrow> pi * (1 - 2 * u) \<le> pi * (1 - 2 * v)"
    by (simp only: arctan_le_iff sinh_real_le_iff)
  also have "\<dots> \<longleftrightarrow> v \<le> u"
    by simp
  finally show ?thesis .
qed

lemma lat_of_frac_inverse:
  assumes "- 90 < lat" "lat < 90"
  shows "lat_of_frac (lat_frac lat) = lat"
proof -
  let ?phi = "lat * pi / 180"
  have lo: "- (pi / 2) < ?phi"
  proof -
    have "- 90 * pi < lat * pi" using assms(1) pi_gt_zero by (rule mult_strict_right_mono)
    then show ?thesis by simp
  qed
  have hi: "?phi < pi / 2"
  proof -
    have "lat * pi < 90 * pi" using assms(2) pi_gt_zero by (rule mult_strict_right_mono)
    then show ?thesis by simp
  qed
  have "pi * (1 - 2 * lat_frac lat) = arsinh (tan ?phi)"
    by (simp add: lat_frac_def field_simps)
  then have "lat_of_frac (lat_frac lat) = arctan (tan ?phi) * 180 / pi"
    by (simp add: lat_of_frac_def)
  also have "\<dots> = ?phi * 180 / pi"
    using lo hi by (simp add: arctan_tan)
  also have "\<dots> = lat" by simp
  finally show ?thesis .
qed

lemma max_lat_frac: "max_lat = lat_of_frac 0" "- max_lat = lat_of_frac 1"
  by (simp_all add: max_lat_def lat_of_frac_def arctan_minus)

lemma max_lat_lt_90: "max_lat < 90"
proof -
  have "arctan (sinh pi) < pi / 2" by (rule arctan_ubound)
  then have "arctan (sinh pi) * 180 < 90 * pi" by simp
  then show ?thesis by (simp add: max_lat_def pos_divide_less_eq)
qed

lemma max_lat_pos: "0 < max_lat"
  by (simp add: max_lat_def)

lemma valid_lat:
  assumes "- max_lat \<le> lat" "lat \<le> max_lat"
  shows "- 90 < lat" "lat < 90" "0 \<le> lat_frac lat" "lat_frac lat \<le> 1"
proof -
  show a: "- 90 < lat" and b: "lat < 90" using assms max_lat_lt_90 by linarith+
  have inv: "lat_of_frac (lat_frac lat) = lat" using a b by (rule lat_of_frac_inverse)
  have "lat_of_frac (lat_frac lat) \<le> lat_of_frac 0" using assms(2) by (simp add: inv max_lat_frac)
  then show "0 \<le> lat_frac lat" by (simp only: lat_of_frac_le_iff)
  have "lat_of_frac 1 \<le> lat_of_frac (lat_frac lat)"
    using assms(1) by (simp add: inv max_lat_frac [symmetric])
  then show "lat_frac lat \<le> 1" by (simp only: lat_of_frac_le_iff)
qed

lemma lat_frac_antimono:
  assumes "- max_lat \<le> a" "a \<le> b" "b \<le> max_lat"
  shows "lat_frac b \<le> lat_frac a"
proof -
  have va: "- 90 < a" "a < 90" using valid_lat [of a] assms by linarith+
  have vb: "- 90 < b" "b < 90" using valid_lat [of b] assms by linarith+
  have "lat_of_frac (lat_frac a) \<le> lat_of_frac (lat_frac b)"
    using assms(2) by (simp add: lat_of_frac_inverse va vb)
  then show ?thesis by (simp only: lat_of_frac_le_iff)
qed

lemma tile_row_antimono:
  assumes "- max_lat \<le> a" "a \<le> b" "b \<le> max_lat"
  shows "tile_row zoom b \<le> tile_row zoom a"
proof -
  have "lat_frac b \<le> lat_frac a" using assms by (rule lat_frac_antimono)
  then have "2 ^ zoom * lat_frac b \<le> 2 ^ zoom * lat_frac a" by simp
  then have "\<lfloor>2 ^ zoom * lat_frac b\<rfloor> \<le> \<lfloor>2 ^ zoom * lat_frac a\<rfloor>" by (rule floor_mono)
  then show ?thesis unfolding tile_row_def by (rule clip_mono)
qed

lemma tile_col_mono:
  assumes "a \<le> b"
  shows "tile_col zoom a \<le> tile_col zoom b"
proof -
  have "lng_frac a \<le> lng_frac b" using assms by (simp add: lng_frac_def)
  then have "2 ^ zoom * lng_frac a \<le> 2 ^ zoom * lng_frac b" by simp
  then have "\<lfloor>2 ^ zoom * lng_frac a\<rfloor> \<le> \<lfloor>2 ^ zoom * lng_frac b\<rfloor>" by (rule floor_mono)
  then show ?thesis unfolding tile_col_def by (rule clip_mono)
qed

lemma col_covers:
  assumes "- 180 \<le> lng" "lng \<le> 180"
  shows "ul_lng zoom (tile_col zoom lng) \<le> lng" "lng \<le> ul_lng zoom (tile_col zoom lng + 1)"
proof -
  let ?X = "2 ^ zoom * lng_frac lng"
  have f: "0 \<le> lng_frac lng" "lng_frac lng \<le> 1" using assms by (simp_all add: lng_frac_def)
  have X0: "0 \<le> ?X" using f(1) by simp
  have "?X \<le> 2 ^ zoom * 1" using f(2) by (intro mult_left_mono) simp_all
  then have X1: "?X \<le> 2 ^ zoom" by simp
  have lo: "real_of_int (tile_col zoom lng) \<le> ?X" and hi: "?X \<le> real_of_int (tile_col zoom lng) + 1"
    unfolding tile_col_def using clip_floor_brackets [OF X0 X1] by simp_all
  have p: "(0::real) < 2 ^ zoom" by simp
  from lo have "real_of_int (tile_col zoom lng) / 2 ^ zoom \<le> lng_frac lng"
    using p by (simp add: pos_divide_le_eq mult.commute)
  then show "ul_lng zoom (tile_col zoom lng) \<le> lng"
    by (simp add: ul_lng_def lng_frac_def)
  from hi have "lng_frac lng \<le> (real_of_int (tile_col zoom lng) + 1) / 2 ^ zoom"
    using p by (simp add: pos_le_divide_eq mult.commute)
  then show "lng \<le> ul_lng zoom (tile_col zoom lng + 1)"
    by (simp add: ul_lng_def lng_frac_def)
qed

lemma row_covers:
  assumes "- max_lat \<le> lat" "lat \<le> max_lat"
  shows "ul_lat zoom (tile_row zoom lat + 1) \<le> lat" "lat \<le> ul_lat zoom (tile_row zoom lat)"
proof -
  let ?Y = "2 ^ zoom * lat_frac lat"
  note v = valid_lat [OF assms]
  have inv: "lat_of_frac (lat_frac lat) = lat" using v(1,2) by (rule lat_of_frac_inverse)
  have Y0: "0 \<le> ?Y" using v(3) by simp
  have "?Y \<le> 2 ^ zoom * 1" using v(4) by (intro mult_left_mono) simp_all
  then have Y1: "?Y \<le> 2 ^ zoom" by simp
  have lo: "real_of_int (tile_row zoom lat) \<le> ?Y" and hi: "?Y \<le> real_of_int (tile_row zoom lat) + 1"
    unfolding tile_row_def using clip_floor_brackets [OF Y0 Y1] by simp_all
  have p: "(0::real) < 2 ^ zoom" by simp
  from lo have "real_of_int (tile_row zoom lat) / 2 ^ zoom \<le> lat_frac lat"
    using p by (simp add: pos_divide_le_eq mult.commute)
  then have "lat_of_frac (lat_frac lat) \<le> lat_of_frac (real_of_int (tile_row zoom lat) / 2 ^ zoom)"
    by (simp only: lat_of_frac_le_iff)
  then show "lat \<le> ul_lat zoom (tile_row zoom lat)"
    by (simp add: inv ul_lat_frac)
  from hi have "lat_frac lat \<le> real_of_int (tile_row zoom lat + 1) / 2 ^ zoom"
    using p by (simp add: pos_le_divide_eq mult.commute)
  then have "lat_of_frac (real_of_int (tile_row zoom lat + 1) / 2 ^ zoom) \<le> lat_of_frac (lat_frac lat)"
    by (simp only: lat_of_frac_le_iff)
  then show "ul_lat zoom (tile_row zoom lat + 1) \<le> lat"
    by (simp add: inv ul_lat_frac)
qed

lemma set_tiles:
  "set (mercantile_tiles w s e n zoom) =
     {t. tile_z t = zoom \<and>
         min (tile_col zoom w) (tile_col zoom e) \<le> tile_x t \<and>
         tile_x t \<le> max (tile_col zoom w) (tile_col zoom e) \<and>
         min (tile_row zoom s) (tile_row zoom n) \<le> tile_y t \<and>
         tile_y t \<le> max (tile_row zoom s) (tile_row zoom n)}"
  (is "?L = ?R")
proof (intro set_eqI iffI)
  fix t assume "t \<in> ?L"
  then show "t \<in> ?R" by (auto simp: mercantile_tiles_def Let_def)
next
  fix t :: tile assume t: "t \<in> ?R"
  have "t = \<lparr> tile_x = tile_x t, tile_y = tile_y t, tile_z = tile_z t \<rparr>" by simp
  with t show "t \<in> ?L"
    by (auto simp: mercantile_tiles_def Let_def intro!: bexI [of _ "tile_y t"] image_eqI [of _ _ "tile_x t"])
qed
lemma irrefl_sorted_distinct:
  "sorted_wrt P xs \<Longrightarrow> (\<And>x. \<not> P x x) \<Longrightarrow> distinct xs"
  by (induction xs) auto

lemma row_major_rows:
  assumes "sorted_wrt (<) ys"
  shows "sorted_wrt row_major
           (concat (map (\<lambda>y. map (\<lambda>x. \<lparr> tile_x = x, tile_y = y, tile_z = zoom \<rparr>) [a..b]) ys))"
  using assms
proof (induction ys)
  case Nil
  show ?case by simp
next
  case (Cons y ys)
  have row: "sorted_wrt row_major (map (\<lambda>x. \<lparr> tile_x = x, tile_y = y, tile_z = zoom \<rparr>) [a..b])"
    by (simp add: sorted_wrt_map row_major_def)
  have rest: "sorted_wrt row_major
           (concat (map (\<lambda>y. map (\<lambda>x. \<lparr> tile_x = x, tile_y = y, tile_z = zoom \<rparr>) [a..b]) ys))"
    using Cons by simp
  have cross: "\<And>s t. s \<in> set (map (\<lambda>x. \<lparr> tile_x = x, tile_y = y, tile_z = zoom \<rparr>) [a..b]) \<Longrightarrow>
      t \<in> set (concat (map (\<lambda>y. map (\<lambda>x. \<lparr> tile_x = x, tile_y = y, tile_z = zoom \<rparr>) [a..b]) ys)) \<Longrightarrow>
      row_major s t"
    using Cons.prems by (auto simp: row_major_def)
  show ?case
    using row rest cross by (simp add: sorted_wrt_append)
qed

lemma tiles_row_major: "sorted_wrt row_major (mercantile_tiles w s e n zoom)"
  unfolding mercantile_tiles_def Let_def by (rule row_major_rows) simp

lemma sinh_pi_ge_1: "1 \<le> sinh pi"
proof -
  have "1 + pi \<le> exp pi" by (rule exp_ge_add_one_self)
  moreover have "exp (- pi) \<le> 1" using pi_gt_zero by simp
  moreover have "2 \<le> pi" by (rule pi_ge_two)
  ultimately have "2 \<le> exp pi - exp (- pi)" by linarith
  then show ?thesis by (simp add: sinh_field_def)
qed

lemma max_lat_ge_45: "45 \<le> max_lat"
proof -
  have "arctan 1 \<le> arctan (sinh pi)" using sinh_pi_ge_1 by (simp add: arctan_le_iff)
  then have "pi / 4 \<le> arctan (sinh pi)" by (simp add: arctan_one)
  then have "45 * pi \<le> arctan (sinh pi) * 180" by simp
  then show ?thesis using pi_gt_zero by (simp add: max_lat_def pos_le_divide_eq)
qed

text \<open>
  Claim C6.  For every valid bounding box (geographic degrees: longitudes between
  -180 and 180, west less than east, south less than north, latitudes within the Web
  Mercator range) and every zoom level, the enumeration is not empty, has no tile
  twice, has every column and row in \<open>[0, 2 ^ zoom)\<close> at the given zoom, and covers the
  box: every point of the box lies in the geographic bounds of an enumerated tile.
\<close>

theorem tiles_sound:
  assumes "w < e" and "s < n" and "- 180 \<le> w" and "e \<le> 180"
    and "- max_lat \<le> s" and "n \<le> max_lat"
  shows "mercantile_tiles w s e n zoom \<noteq> [] \<and> distinct (mercantile_tiles w s e n zoom) \<and>
         list_all (\<lambda>t. tile_z t = zoom \<and> 0 \<le> tile_x t \<and> tile_x t < 2 ^ zoom \<and>
                        0 \<le> tile_y t \<and> tile_y t < 2 ^ zoom) (mercantile_tiles w s e n zoom) \<and>
         (\<forall>lng lat. w \<le> lng \<and> lng \<le> e \<and> s \<le> lat \<and> lat \<le> n \<longrightarrow>
            (\<exists>t. t \<in> set (mercantile_tiles w s e n zoom) \<and> in_bounds (bounds t) lng lat))"
proof (intro conjI allI impI)
  let ?t0 = "\<lparr> tile_x = tile_col zoom w, tile_y = tile_row zoom n, tile_z = zoom \<rparr>"
  have "?t0 \<in> set (mercantile_tiles w s e n zoom)" by (simp add: set_tiles)
  then show "mercantile_tiles w s e n zoom \<noteq> []" by auto
next
  show "distinct (mercantile_tiles w s e n zoom)"
    using tiles_row_major by (rule irrefl_sorted_distinct) (simp add: row_major_def)
next
  show "list_all (\<lambda>t. tile_z t = zoom \<and> 0 \<le> tile_x t \<and> tile_x t < 2 ^ zoom \<and>
                        0 \<le> tile_y t \<and> tile_y t < 2 ^ zoom) (mercantile_tiles w s e n zoom)"
    unfolding list_all_iff
  proof
    fix t assume "t \<in> set (mercantile_tiles w s e n zoom)"
    then have z: "tile_z t = zoom"
      and x: "min (tile_col zoom w) (tile_col zoom e) \<le> tile_x t"
             "tile_x t \<le> max (tile_col zoom w) (tile_col zoom e)"
      and y: "min (tile_row zoom s) (tile_row zoom n) \<le> tile_y t"
             "tile_y t \<le> max (tile_row zoom s) (tile_row zoom n)"
      by (simp_all add: set_tiles)
    have "0 \<le> tile_col zoom w" "0 \<le> tile_col zoom e" "tile_col zoom w < 2 ^ zoom" "tile_col zoom e < 2 ^ zoom"
         "0 \<le> tile_row zoom s" "0 \<le> tile_row zoom n" "tile_row zoom s < 2 ^ zoom" "tile_row zoom n < 2 ^ zoom"
      by (simp_all add: tile_col_def tile_row_def clip_range)
    with x y z show "tile_z t = zoom \<and> 0 \<le> tile_x t \<and> tile_x t < 2 ^ zoom \<and>
                        0 \<le> tile_y t \<and> tile_y t < 2 ^ zoom"
      by linarith
  qed
next
  fix lng lat
  assume box: "w \<le> lng \<and> lng \<le> e \<and> s \<le> lat \<and> lat \<le> n"
  let ?t = "\<lparr> tile_x = tile_col zoom lng, tile_y = tile_row zoom lat, tile_z = zoom \<rparr>"
  have lng: "- 180 \<le> lng" "lng \<le> 180" and lat: "- max_lat \<le> lat" "lat \<le> max_lat"
    using box assms by linarith+
  have cx: "tile_col zoom w \<le> tile_col zoom lng" "tile_col zoom lng \<le> tile_col zoom e"
    using box by (simp_all add: tile_col_mono)
  have cy: "tile_row zoom n \<le> tile_row zoom lat" "tile_row zoom lat \<le> tile_row zoom s"
    using box lat assms(5,6) by (simp_all add: tile_row_antimono)
  have "?t \<in> set (mercantile_tiles w s e n zoom)"
    using cx cy by (simp add: set_tiles)
  moreover have "in_bounds (bounds ?t) lng lat"
    using col_covers [OF lng, of zoom] row_covers [OF lat, of zoom]
    by (simp add: in_bounds_def bounds_def)
  ultimately show "\<exists>t. t \<in> set (mercantile_tiles w s e n zoom) \<and> in_bounds (bounds t) lng lat"
    by blast
qed

theorem tiles_sound_witness:
  "(0::real) < 1 \<and> - 180 \<le> (0::real) \<and> (1::real) \<le> 180 \<and> - max_lat \<le> 0 \<and> 1 \<le> max_lat \<and>
   mercantile_tiles 0 0 1 1 15 \<noteq> [] \<and> distinct (mercantile_tiles 0 0 1 1 15) \<and>
   list_all (\<lambda>t. tile_z t = 15 \<and> 0 \<le> tile_x t \<and> tile_x t < 2 ^ 15 \<and>
                  0 \<le> tile_y t \<and> tile_y t < 2 ^ 15) (mercantile_tiles 0 0 1 1 15) \<and>
   (\<exists>t. t \<in> set (mercantile_tiles 0 0 1 1 15) \<and> in_bounds (bounds t) (1 / 2) (1 / 3))"
proof -
  have h: "(0::real) < 1" "- 180 \<le> (0::real)" "(1::real) \<le> 180" "- max_lat \<le> 0" "1 \<le> max_lat"
    using max_lat_ge_45 by simp_all
  have p: "(0::real) \<le> 1 / 2 \<and> (1 / 2 :: real) \<le> 1 \<and> (0::real) \<le> 1 / 3 \<and> (1 / 3 :: real) \<le> 1"
    by simp
  from tiles_sound [OF h(1) h(1) h(2) h(3) h(4) h(5), of 15] p h show ?thesis
    by blast
qed

text \<open>
  Claim C7.  The enumeration is a function of the box and the zoom level alone, the
  rectangle of tiles listed row by row: its tiles are in strictly ascending row-major
  order, by row first and within a row by column.
\<close>

theorem tiles_deterministic_row_major:
  "sorted_wrt row_major (mercantile_tiles w s e n zoom) \<and>
   mercantile_tiles w s e n zoom =
     concat (map (\<lambda>y. map (\<lambda>x. \<lparr> tile_x = x, tile_y = y, tile_z = zoom \<rparr>)
                        [min (tile_col zoom w) (tile_col zoom e)..max (tile_col zoom w) (tile_col zoom e)])
                 [min (tile_row zoom s) (tile_row zoom n)..max (tile_row zoom s) (tile_row zoom n)])"
  using tiles_row_major by (simp add: mercantile_tiles_def Let_def)

text \<open>
  Claim C8.  For a box that is a single point, whatever its coordinates and the zoom
  level, the enumeration is exactly one tile, the one of the point's column and row.
\<close>

theorem tiles_point:
  "mercantile_tiles lng lat lng lat zoom = [\<lparr> tile_x = tile_col zoom lng, tile_y = tile_row zoom lat, tile_z = zoom \<rparr>] \<and>
   length (mercantile_tiles lng lat lng lat zoom) = 1"
  by (simp add: mercantile_tiles_def)
end
